theory Spec2Isabelle
  imports Main "HOL-Library.Signed_Division"
begin

section \<open>Machine integers\<close>

text \<open>
  Go's fixed-width signed integers are modelled as \<open>int\<close> with the two's-complement
  wrap-around written out. Go's \<open>/\<close> and \<open>%\<close> truncate towards zero; they are
  \<open>sdiv\<close> and \<open>smod\<close> on \<open>int\<close>.
\<close>

definition i64 :: "int \<Rightarrow> int" where
  "i64 x = (x + 9223372036854775808) mod 18446744073709551616 - 9223372036854775808"

definition i16 :: "int \<Rightarrow> int" where
  "i16 x = (x + 32768) mod 65536 - 32768"

definition i8 :: "int \<Rightarrow> int" where
  "i8 x = (x + 128) mod 256 - 128"

definition MaxInt16 :: int where
  "MaxInt16 = 32767"

section \<open>Data model\<close>

text \<open>
  Modelled from the spec: the type \<open>designator\<close> is declared outside the source files
  at hand. It names the field the fraction belongs to, one of None, Year, Month, Day,
  Hour, Minute and Second; \<open>NoFraction\<close> is its zero value.
\<close>

datatype designator = NoFraction | Year | Month | Day | Hour | Minute | Second

text \<open>
  Modelled from the spec: the struct \<open>Period\<close> is declared outside the source files at
  hand. It has six signed whole fields, which \<open>toPeriod\<close> fills with \<open>int16\<close> values,
  a signed fraction in hundredths, an \<open>int8\<close>, and the designator \<open>fpart\<close>.
\<close>

record Period =
  years :: int
  months :: int
  days :: int
  hours :: int
  minutes :: int
  seconds :: int
  fraction :: int
  fpart :: designator

text \<open>
  The working value \<open>period64\<close>: the fields carry the suffix \<open>64\<close> here, because a
  record field name can belong to one record only.
\<close>

record period64 =
  years64 :: int
  months64 :: int
  days64 :: int
  hours64 :: int
  minutes64 :: int
  seconds64 :: int
  fraction64 :: int
  fpart64 :: designator
  neg :: bool
  input :: string

text \<open>The zero value \<open>Period{}\<close>.\<close>

definition Period0 :: Period where
  "Period0 = \<lparr>years = 0, months = 0, days = 0, hours = 0, minutes = 0, seconds = 0,
              fraction = 0, fpart = NoFraction\<rparr>"

text \<open>Short notation for the literals of the two structs.\<close>

abbreviation PeriodOf ::
  "int \<Rightarrow> int \<Rightarrow> int \<Rightarrow> int \<Rightarrow> int \<Rightarrow> int \<Rightarrow> int \<Rightarrow> designator \<Rightarrow> Period" where
  "PeriodOf y mo d h mi s f fp \<equiv>
     \<lparr>years = y, months = mo, days = d, hours = h, minutes = mi, seconds = s,
      fraction = f, fpart = fp\<rparr>"

abbreviation Period64Of ::
  "int \<Rightarrow> int \<Rightarrow> int \<Rightarrow> int \<Rightarrow> int \<Rightarrow> int \<Rightarrow> int \<Rightarrow> designator \<Rightarrow> bool \<Rightarrow> string
   \<Rightarrow> period64" where
  "Period64Of y mo d h mi s f fp ng inp \<equiv>
     \<lparr>years64 = y, months64 = mo, days64 = d, hours64 = h, minutes64 = mi, seconds64 = s,
      fraction64 = f, fpart64 = fp, neg = ng, input = inp\<rparr>"

text \<open>
  The sign invariant: all whole fields and the fraction are non-negative, or all are
  non-positive.
\<close>

definition nonneg_Period :: "Period \<Rightarrow> bool" where
  "nonneg_Period p \<longleftrightarrow>
     0 \<le> years p \<and> 0 \<le> months p \<and> 0 \<le> days p \<and> 0 \<le> hours p \<and> 0 \<le> minutes p \<and>
     0 \<le> seconds p \<and> 0 \<le> fraction p"

definition nonpos_Period :: "Period \<Rightarrow> bool" where
  "nonpos_Period p \<longleftrightarrow>
     years p \<le> 0 \<and> months p \<le> 0 \<and> days p \<le> 0 \<and> hours p \<le> 0 \<and> minutes p \<le> 0 \<and>
     seconds p \<le> 0 \<and> fraction p \<le> 0"

definition sign_invariant :: "Period \<Rightarrow> bool" where
  "sign_invariant p \<longleftrightarrow> nonneg_Period p \<or> nonpos_Period p"

text \<open>
  A valid Period: every whole field within \<open>\<plusminus>32767\<close>, the fraction within \<open>-99..99\<close>,
  a fraction exactly when there is a designator, and the sign invariant.
\<close>

definition field_ok :: "int \<Rightarrow> bool" where
  "field_ok x \<longleftrightarrow> - 32767 \<le> x \<and> x \<le> 32767"

definition valid_Period :: "Period \<Rightarrow> bool" where
  "valid_Period p \<longleftrightarrow>
     field_ok (years p) \<and> field_ok (months p) \<and> field_ok (days p) \<and>
     field_ok (hours p) \<and> field_ok (minutes p) \<and> field_ok (seconds p) \<and>
     - 99 \<le> fraction p \<and> fraction p \<le> 99 \<and>
     ((fraction p = 0) = (fpart p = NoFraction)) \<and>
     sign_invariant p"

section \<open>Helpers of Period\<close>

text \<open>
  Modelled from the spec: \<open>IsNegative\<close> is a method of \<open>Period\<close> defined outside the
  source files at hand. A Period is negative when one of its fields or its fraction is
  below zero; by the sign invariant all the others are then zero or below.
\<close>

definition IsNegative :: "Period \<Rightarrow> bool" where
  "IsNegative p \<longleftrightarrow>
     years p < 0 \<or> months p < 0 \<or> days p < 0 \<or> hours p < 0 \<or> minutes p < 0 \<or>
     seconds p < 0 \<or> fraction p < 0"

text \<open>
  Modelled from the spec: \<open>IsZero\<close> is a method of \<open>Period\<close> defined outside the source
  files at hand. The zero period has all fields zero and the fraction zero.
\<close>

definition IsZero :: "Period \<Rightarrow> bool" where
  "IsZero p \<longleftrightarrow>
     years p = 0 \<and> months p = 0 \<and> days p = 0 \<and> hours p = 0 \<and> minutes p = 0 \<and>
     seconds p = 0 \<and> fraction p = 0"

text \<open>
  Modelled from the spec: \<open>Sign\<close> is a method of \<open>Period\<close> defined outside the source
  files at hand. It is \<open>-1\<close> for a negative period, \<open>+1\<close> for a positive one (the unit
  that \<open>simpleAdd\<close> carries in the sign's direction) and \<open>0\<close> for the zero period.
\<close>

definition Sign :: "Period \<Rightarrow> int" where
  "Sign p = (if IsZero p then 0 else if IsNegative p then - 1 else 1)"

text \<open>
  Modelled from the spec: \<open>Negate\<close> is a method of \<open>Period\<close> defined outside the source
  files at hand. It negates every field and the fraction, in the width of each.
\<close>

definition Negate :: "Period \<Rightarrow> Period" where
  "Negate p =
     \<lparr>years = i16 (- years p), months = i16 (- months p), days = i16 (- days p),
      hours = i16 (- hours p), minutes = i16 (- minutes p), seconds = i16 (- seconds p),
      fraction = i8 (- fraction p), fpart = fpart p\<rparr>"

text \<open>
  Modelled from the spec: \<open>absNeg\<close> is a method of \<open>Period\<close> defined outside the source
  files at hand. It yields the absolute magnitude of the period and its sign flag.
\<close>

definition absNeg :: "Period \<Rightarrow> Period \<times> bool" where
  "absNeg p = (if IsNegative p then (Negate p, True) else (p, False))"

text \<open>
  Modelled from the spec: \<open>centiYM\<close> is a method of \<open>Period\<close> defined outside the source
  files at hand. It folds the years, the months and a fraction attached to either into
  one integer, \<open>field * 100 + fraction\<close> in hundredths of a month (\<open>p64Of\<close> reads the
  months off it as \<open>cym / 100\<close>); a fraction of a year is twelve times as many
  hundredths of a month. The sign is that of the fields.
\<close>

definition centiYM :: "Period \<Rightarrow> int" where
  "centiYM p =
     (years p * 12 + months p) * 100 +
     (case fpart p of Year \<Rightarrow> 12 * fraction p | Month \<Rightarrow> fraction p | _ \<Rightarrow> 0)"

text \<open>
  Modelled from the spec: \<open>centiDays\<close> is a method of \<open>Period\<close> defined outside the
  source files at hand. It folds the days and a fraction attached to them into one
  integer, \<open>field * 100 + fraction\<close> in hundredths of a day.
\<close>

definition centiDays :: "Period \<Rightarrow> int" where
  "centiDays p = days p * 100 + (case fpart p of Day \<Rightarrow> fraction p | _ \<Rightarrow> 0)"

text \<open>
  Modelled from the spec: \<open>centiHMS\<close> is a method of \<open>Period\<close> defined outside the
  source files at hand. It folds the hours, minutes and seconds and a fraction attached
  to one of them into one integer, \<open>field * 100 + fraction\<close> in hundredths of a second
  (\<open>p64Of\<close> reads the seconds off it as \<open>chms / 100\<close>); a fraction of an hour or of a
  minute is 3600 or 60 times as many hundredths of a second.
\<close>

definition centiHMS :: "Period \<Rightarrow> int" where
  "centiHMS p =
     (hours p * 3600 + minutes p * 60 + seconds p) * 100 +
     (case fpart p of Hour \<Rightarrow> 3600 * fraction p | Minute \<Rightarrow> 60 * fraction p
        | Second \<Rightarrow> fraction p | _ \<Rightarrow> 0)"

section \<open>Normalisation of period64\<close>

text \<open>
  \<open>rippleUp\<close>, in the four stages of the source. The third stage computes in
  \<open>float64\<close> (\<open>math.Modf\<close> and the constants \<open>hoursPerMonthF\<close>, \<open>daysPerMonthF\<close>); all
  four numbers it produces are functions of \<open>totalHours\<close> alone, so the floating-point
  computation is the parameter \<open>fl\<close>, from the integer \<open>days * 24 + hours\<close> to
  \<open>(int64(deltaMonths), int64(days), int64(hours), int64(remHours * 60))\<close>.
\<close>

type_synonym collapse = "int \<Rightarrow> int \<times> int \<times> int \<times> int"

text \<open>
  A collapse for evaluating the model at inputs that never reach the third stage.
\<close>

definition idle :: collapse where
  "idle h = (0, 0, 0, 0)"

text \<open>
  Modelled from the spec: the constants \<open>hoursPerMonthF\<close> and \<open>daysPerMonthF\<close> are
  declared outside the source files at hand. A month has 30.436875 days of 24 hours,
  that is 146097/4800 days or 146097/200 hours. \<open>collapse_exact\<close> is the
  floating-point stage with every quotient taken exactly: the months are the whole
  part of \<open>200 * h / 146097\<close>, the days the whole part of the remaining \<open>r1 / 4800\<close>,
  the hours the whole part of \<open>r2 / 200 + 1 / 360000\<close>, and the minutes the whole part
  of 60 times the rest. \<open>float64\<close> rounds, so the stage of the source can differ from
  it where a quotient falls next to a whole number.
\<close>

definition collapse_exact :: collapse where
  "collapse_exact h =
     (let n = 200 * h;
          r1 = n smod 146097;
          r2 = r1 smod 4800;
          t = 1800 * r2 + 1
      in (n sdiv 146097, r1 sdiv 4800, t sdiv 360000, (t smod 360000) sdiv 6000))"

definition rippleHMS :: "period64 \<Rightarrow> period64" where
  "rippleHMS p =
     (let hms0 = i64 (i64 (i64 (hours64 p * 3600) + i64 (minutes64 p * 60)) + seconds64 p);
          dd = i64 (hms0 sdiv 86400 - 1);
          days1 = (if hms0 < 0 then i64 (days64 p + dd) else days64 p);
          hms = (if hms0 < 0 then i64 (hms0 - i64 (dd * 86400)) else hms0);
          hours1 = hms sdiv 3600
      in p\<lparr>days64 := days1,
            hours64 := hours1,
            minutes64 := i64 (hms sdiv 60 - i64 (hours1 * 60)),
            seconds64 := hms smod 60\<rparr>)"

definition rippleHours :: "bool \<Rightarrow> period64 \<Rightarrow> period64" where
  "rippleHours precise p =
     (if \<not> precise \<or> hours64 p > MaxInt16
      then (let h = hours64 p smod 24
            in p\<lparr>days64 := i64 (days64 p + hours64 p sdiv 24),
                  hours64 := (if h < 0 then i64 (- h) else h)\<rparr>)
      else p)"

definition rippleDays :: "collapse \<Rightarrow> period64 \<Rightarrow> period64" where
  "rippleDays fl p =
     (if days64 p > MaxInt16 \<or> days64 p < 0
      then (case fl (i64 (i64 (days64 p * 24) + hours64 p)) of
              (deltaMonths, daysI, hoursI, remMinutes) \<Rightarrow>
                (let q = p\<lparr>months64 := i64 (months64 p + i64 deltaMonths),
                            days64 := i64 daysI,
                            hours64 := i64 hoursI,
                            minutes64 := i64 (minutes64 p + i64 remMinutes)\<rparr>
                 in if hours64 q \<ge> 24
                    then q\<lparr>days64 := i64 (days64 q + hours64 q sdiv 24),
                           hours64 := hours64 q smod 24\<rparr>
                    else q))
      else p)"

definition rippleMonths :: "period64 \<Rightarrow> period64" where
  "rippleMonths p =
     (if months64 p \<noteq> 0
      then p\<lparr>years64 := i64 (years64 p + months64 p sdiv 12),
             months64 := months64 p smod 12\<rparr>
      else p)"

definition rippleUp :: "collapse \<Rightarrow> bool \<Rightarrow> period64 \<Rightarrow> period64" where
  "rippleUp fl precise p = rippleMonths (rippleDays fl (rippleHours precise (rippleHMS p)))"

text \<open>The fraction-reduction passes.\<close>

definition reduceYearsFraction :: "period64 \<Rightarrow> period64" where
  "reduceYearsFraction p =
     (if fpart64 p = Year
      then (let centiMonths = i64 (12 * fraction64 p);
                monthFraction = centiMonths smod 100
            in if monthFraction = 0
               then p\<lparr>months64 := i64 (months64 p + centiMonths sdiv 100),
                      fraction64 := 0, fpart64 := NoFraction\<rparr>
               else p)
      else p)"

definition reduceDaysFraction :: "bool \<Rightarrow> period64 \<Rightarrow> period64" where
  "reduceDaysFraction precise p =
     (if \<not> precise \<and> fpart64 p = Day
      then (let centiHours = i64 (24 * fraction64 p);
                hourFraction = centiHours smod 100
            in if hourFraction = 0
               then p\<lparr>hours64 := i64 (hours64 p + centiHours sdiv 100),
                      fraction64 := 0, fpart64 := NoFraction\<rparr>
               else p)
      else p)"

definition reduceHoursFraction :: "period64 \<Rightarrow> period64" where
  "reduceHoursFraction p =
     (if fpart64 p = Hour
      then (let centiMinutes = i64 (60 * fraction64 p);
                minuteFraction = centiMinutes smod 100
            in if minuteFraction = 0
               then p\<lparr>minutes64 := i64 (minutes64 p + centiMinutes sdiv 100),
                      fraction64 := 0, fpart64 := NoFraction\<rparr>
               else p)
      else p)"

definition reduceMinutesFraction :: "period64 \<Rightarrow> period64" where
  "reduceMinutesFraction p =
     (if fpart64 p = Minute
      then (let centiSeconds = i64 (60 * fraction64 p);
                secondFraction = centiSeconds smod 100
            in if secondFraction = 0
               then p\<lparr>seconds64 := i64 (seconds64 p + centiSeconds sdiv 100),
                      fraction64 := 0, fpart64 := NoFraction\<rparr>
               else p)
      else p)"

definition normalise64 :: "collapse \<Rightarrow> bool \<Rightarrow> period64 \<Rightarrow> period64" where
  "normalise64 fl precise p =
     reduceMinutesFraction (reduceHoursFraction (reduceDaysFraction precise
       (reduceYearsFraction (rippleUp fl precise p))))"

section \<open>Conversions\<close>

definition p64Of :: "collapse \<Rightarrow> int \<Rightarrow> int \<Rightarrow> int \<Rightarrow> bool \<Rightarrow> period64" where
  "p64Of fl cym cd chms ng =
     (let p0 = \<lparr>years64 = 0, months64 = cym sdiv 100, days64 = cd sdiv 100, hours64 = 0,
                minutes64 = 0, seconds64 = chms sdiv 100, fraction64 = 0,
                fpart64 = NoFraction, neg = ng, input = []\<rparr>;
          ymf = cym smod 100;
          p1 = (if ymf \<noteq> 0 then p0\<lparr>fraction64 := i8 ymf, fpart64 := Month\<rparr> else p0);
          df = cd smod 100;
          p2 = (if df \<noteq> 0 then p1\<lparr>fraction64 := i8 df, fpart64 := Day\<rparr> else p1);
          sf = chms smod 100;
          p3 = (if sf \<noteq> 0 then p2\<lparr>fraction64 := i8 sf, fpart64 := Second\<rparr> else p2)
      in normalise64 fl True p3)"

definition toPeriod64 :: "Period \<Rightarrow> string \<Rightarrow> period64" where
  "toPeriod64 period inp =
     (if IsNegative period
      then \<lparr>years64 = i16 (- years period), months64 = i16 (- months period),
            days64 = i16 (- days period), hours64 = i16 (- hours period),
            minutes64 = i16 (- minutes period), seconds64 = i16 (- seconds period),
            fraction64 = i8 (- fraction period), fpart64 = fpart period,
            neg = True, input = inp\<rparr>
      else \<lparr>years64 = years period, months64 = months period, days64 = days period,
            hours64 = hours period, minutes64 = minutes period, seconds64 = seconds period,
            fraction64 = fraction period, fpart64 = fpart period,
            neg = False, input = inp\<rparr>)"

text \<open>
  The overflow error of \<open>toPeriod\<close>: its label is the original input when there is one,
  and the rendering \<open>p64.String()\<close> of the value otherwise (the renderer is outside the
  source files at hand, so the label keeps the value to be rendered); its second part
  is the list of offending field names, which the message joins with commas.
\<close>

datatype label = Given string | Rendered period64

datatype overflow_error = OverflowError label "string list"

fun error_fields :: "overflow_error \<Rightarrow> string list" where
  "error_fields (OverflowError l f) = f"

fun error_label :: "overflow_error \<Rightarrow> label" where
  "error_label (OverflowError l f) = l"

fun join :: "string \<Rightarrow> string list \<Rightarrow> string" where
  "join sep [] = []"
| "join sep [x] = x"
| "join sep (x # y # ys) = x @ sep @ join sep (y # ys)"

definition Error :: "(period64 \<Rightarrow> string) \<Rightarrow> overflow_error \<Rightarrow> string" where
  "Error render e =
     (case error_label e of Given s \<Rightarrow> s | Rendered p \<Rightarrow> render p) @
     '': integer overflow occurred in '' @ join '','' (error_fields e)"

definition overflowing :: "period64 \<Rightarrow> string list" where
  "overflowing p =
     (if years64 p > MaxInt16 then [''years''] else []) @
     (if months64 p > MaxInt16 then [''months''] else []) @
     (if days64 p > MaxInt16 then [''days''] else []) @
     (if hours64 p > MaxInt16 then [''hours''] else []) @
     (if minutes64 p > MaxInt16 then [''minutes''] else []) @
     (if seconds64 p > MaxInt16 then [''seconds''] else []) @
     (if fraction64 p > 99 then [''fraction''] else [])"

definition toPeriod :: "period64 \<Rightarrow> Period \<times> overflow_error option" where
  "toPeriod p =
     (let f = overflowing p
      in if length f > 0
         then (Period0,
               Some (OverflowError (if input p = [] then Rendered p else Given (input p)) f))
         else if neg p
         then (\<lparr>years = i16 (i64 (- years64 p)), months = i16 (i64 (- months64 p)),
                days = i16 (i64 (- days64 p)), hours = i16 (i64 (- hours64 p)),
                minutes = i16 (i64 (- minutes64 p)), seconds = i16 (i64 (- seconds64 p)),
                fraction = i8 (- fraction64 p), fpart = fpart64 p\<rparr>, None)
         else (\<lparr>years = i16 (years64 p), months = i16 (months64 p), days = i16 (days64 p),
                hours = i16 (hours64 p), minutes = i16 (minutes64 p),
                seconds = i16 (seconds64 p),
                fraction = fraction64 p, fpart = fpart64 p\<rparr>, None))"

section \<open>Addition\<close>

text \<open>The \<open>switch\<close> of \<open>simpleAdd\<close>: one more unit in the field the fraction belongs to.\<close>

definition carry :: "designator \<Rightarrow> int \<Rightarrow> Period \<Rightarrow> Period" where
  "carry fp one p =
     (case fp of
        Year \<Rightarrow> p\<lparr>years := i16 (years p + one)\<rparr>
      | Month \<Rightarrow> p\<lparr>months := i16 (months p + one)\<rparr>
      | Day \<Rightarrow> p\<lparr>days := i16 (days p + one)\<rparr>
      | Hour \<Rightarrow> p\<lparr>hours := i16 (hours p + one)\<rparr>
      | Minute \<Rightarrow> p\<lparr>minutes := i16 (minutes p + one)\<rparr>
      | Second \<Rightarrow> p\<lparr>seconds := i16 (seconds p + one)\<rparr>
      | NoFraction \<Rightarrow> p)"

definition simpleAdd :: "Period \<Rightarrow> Period \<Rightarrow> Period" where
  "simpleAdd period that =
     (let (fraction0, fpart0, period1) =
            (if fpart period = NoFraction then (fraction that, fpart that, period)
             else if fpart that = NoFraction then (fraction period, fpart period, period)
             else (let fr = fraction period + fraction that
                   in if fr > 99 \<or> fr < - 99
                      then (fr smod 100, fpart period,
                            carry (fpart period) (i16 (Sign period)) period)
                      else (fr, fpart period, period)));
          fpart1 = (if fraction0 = 0 then NoFraction else fpart0)
      in \<lparr>years = i16 (years period1 + years that),
          months = i16 (months period1 + months that),
          days = i16 (days period1 + days that),
          hours = i16 (hours period1 + hours that),
          minutes = i16 (minutes period1 + minutes that),
          seconds = i16 (seconds period1 + seconds that),
          fraction = i8 fraction0,
          fpart = fpart1\<rparr>)"

text \<open>
  \<open>nonTrivialAdd\<close> in two steps: the \<open>period64\<close> that either branch hands to
  \<open>toPeriod\<close>, and the narrowing \<open>p, _ := ...toPeriod()\<close>, which keeps the Period and
  drops the error.
\<close>

definition nonTrivialAdd64 :: "collapse \<Rightarrow> Period \<Rightarrow> Period \<Rightarrow> period64" where
  "nonTrivialAdd64 fl period that =
     (let cym = i64 (centiYM period + centiYM that);
          cd = i64 (centiDays period + centiDays that);
          chms = i64 (centiHMS period + centiHMS that)
      in if cym \<ge> 0 \<and> cd \<ge> 0 \<and> chms \<ge> 0
         then p64Of fl cym cd chms False
         else p64Of fl (i64 (- cym)) (i64 (- cd)) (i64 (- chms)) True)"

definition nonTrivialAdd :: "collapse \<Rightarrow> Period \<Rightarrow> Period \<Rightarrow> Period" where
  "nonTrivialAdd fl period that = fst (toPeriod (nonTrivialAdd64 fl period that))"

definition Add :: "collapse \<Rightarrow> Period \<Rightarrow> Period \<Rightarrow> Period" where
  "Add fl period that =
     (if (fpart period = fpart that \<or> fpart period = NoFraction \<or> fpart that = NoFraction) \<and>
         Sign period = Sign that
      then simpleAdd period that
      else nonTrivialAdd fl period that)"

section \<open>Application to a timestamp\<close>

text \<open>
  \<open>time.Time\<close> is the type variable \<open>'t\<close>; its methods \<open>AddDate\<close> and \<open>Add\<close> are the
  parameters \<open>addDate\<close> and \<open>addDuration\<close>. \<open>hmsDuration\<close> and \<open>Duration\<close> are methods of
  \<open>Period\<close> defined outside the source files at hand and parameters as well.
\<close>

definition AddTo ::
  "('t \<Rightarrow> int \<Rightarrow> int \<Rightarrow> int \<Rightarrow> 't) \<Rightarrow> ('t \<Rightarrow> int \<Rightarrow> 't) \<Rightarrow> (Period \<Rightarrow> int) \<Rightarrow>
   (Period \<Rightarrow> int \<times> bool) \<Rightarrow> Period \<Rightarrow> 't \<Rightarrow> 't \<times> bool" where
  "AddTo addDate addDuration hmsDuration Duration period t =
     (let wholeYears = (fpart period \<noteq> Year);
          wholeMonths = (fpart period \<noteq> Month);
          wholeDays = (fpart period \<noteq> Day)
      in if wholeYears \<and> wholeMonths \<and> wholeDays
         then (let t1 = addDate t (years period) (months period) (days period)
               in (addDuration t1 (hmsDuration period), True))
         else (case Duration period of (d, precise) \<Rightarrow> (addDuration t d, precise)))"

section \<open>Scaling\<close>

text \<open>
  Modelled from the spec: the constant \<open>daysPerMonthE6\<close> is declared outside the source
  files at hand. A year has 365.2425 days, so a month has 30.436875 days, here in
  millionths.
\<close>

definition daysPerMonthE6 :: int where
  "daysPerMonthE6 = 30436875"

text \<open>
  Modelled from the spec: the constant \<open>oneE6\<close> is declared outside the source files at
  hand. It is one million, the scale of \<open>daysPerMonthE6\<close>.
\<close>

definition oneE6 :: int where
  "oneE6 = 1000000"

text \<open>
  A Go call either panics or returns. \<open>rationalScale64\<close> panics at \<open>mcym % d\<close> when the
  divisor is zero. In its fallback, \<open>NewOf\<close> and the chain
  \<open>condNegate(neg).Normalise(precise).Simplify(precise)\<close> are defined outside the source
  files at hand: they are the parameters \<open>newOf\<close> and \<open>finish\<close>. Durations are
  \<open>int64\<close> nanoseconds.
\<close>

datatype 'a outcome = Panic | Returned 'a

text \<open>
  Stand-ins for \<open>newOf\<close> and \<open>finish\<close>, for evaluating the model at inputs that take
  the exact path and never reach the fallback.
\<close>

definition newOf_unused :: "int \<Rightarrow> Period \<times> bool" where
  "newOf_unused d = (Period0, True)"

definition finish_unused :: "Period \<Rightarrow> bool \<Rightarrow> bool \<Rightarrow> Period" where
  "finish_unused p ng precise = p"

definition rationalScale64 ::
  "collapse \<Rightarrow> (int \<Rightarrow> Period \<times> bool) \<Rightarrow> (Period \<Rightarrow> bool \<Rightarrow> bool \<Rightarrow> Period) \<Rightarrow>
   int \<Rightarrow> int \<Rightarrow> Period \<Rightarrow> (Period \<times> overflow_error option) outcome" where
  "rationalScale64 fl newOf finish m d period =
     (case absNeg period of (ap, ng) \<Rightarrow>
        (let cym = centiYM ap;
             cd = centiDays ap;
             chms = centiHMS ap;
             mcym = i64 (cym * m);
             mcd = i64 (cd * m);
             mchms = i64 (chms * m)
         in if d = 0 then Panic
            else (let cymr = mcym smod d;
                      cdr = mcd smod d;
                      chmsr = mchms smod d
                  in if cymr = 0 \<and> cdr = 0 \<and> chmsr = 0
                     then (let scd = i64 (mcd sdiv d);
                               moved = (d > m \<and> i64 (scd * d) \<noteq> mcd);
                               mchms1 = (if moved then i64 (mcd * 24) else mchms)
                           in Returned (toPeriod
                                (p64Of fl (i64 (mcym sdiv d)) scd (i64 (mchms1 sdiv d)) ng)))
                     else (let ymdDuration =
                                 i64 (i64 (i64 (i64 (cym * daysPerMonthE6) + i64 (cd * oneE6))
                                   * 864) * 1000);
                               hmsDuration = i64 (i64 (chms * 10) * 1000000);
                               duration = i64 (ymdDuration + hmsDuration);
                               pr1 = (ymdDuration = 0);
                               mul = i64 (i64 (duration * m) sdiv d)
                           in (case newOf (i64 (mul + 5000000)) of (p2, pr2) \<Rightarrow>
                                 Returned (finish p2 ng (pr1 \<and> pr2), None))))))"

definition RationalScale ::
  "collapse \<Rightarrow> (int \<Rightarrow> Period \<times> bool) \<Rightarrow> (Period \<Rightarrow> bool \<Rightarrow> bool \<Rightarrow> Period) \<Rightarrow>
   Period \<Rightarrow> int \<Rightarrow> int \<Rightarrow> (Period \<times> overflow_error option) outcome" where
  "RationalScale fl newOf finish period multiplier divisor =
     rationalScale64 fl newOf finish multiplier divisor period"

text \<open>
  \<open>ScaleWithOverflowCheck\<close> turns its \<open>float32\<close> factor into a rational through the
  factor's decimal text (\<open>fmt.Sprintf\<close>, \<open>big.Rat.SetString\<close>) and calls
  \<open>rationalScale64\<close> with the numerator and the denominator as \<open>int64\<close>. The factor is
  a value of the type variable \<open>'f\<close>, and the conversion is the parameter \<open>toRat\<close>,
  which is \<open>None\<close> where \<open>SetString\<close> reports failure. Its error is either the one of
  the failed conversion or the overflow error of \<open>rationalScale64\<close>.
\<close>

datatype scale_error = UnableToScale | Overflowed overflow_error

definition ScaleWithOverflowCheck ::
  "collapse \<Rightarrow> (int \<Rightarrow> Period \<times> bool) \<Rightarrow> (Period \<Rightarrow> bool \<Rightarrow> bool \<Rightarrow> Period) \<Rightarrow>
   ('f \<Rightarrow> (int \<times> int) option) \<Rightarrow> Period \<Rightarrow> 'f \<Rightarrow> (Period \<times> scale_error option) outcome"
  where
  "ScaleWithOverflowCheck fl newOf finish toRat period factor =
     (case toRat factor of
        None \<Rightarrow> Returned (Period0, Some UnableToScale)
      | Some (multiplier64, divisor64) \<Rightarrow>
          (case rationalScale64 fl newOf finish multiplier64 divisor64 period of
             Panic \<Rightarrow> Panic
           | Returned (r, e) \<Rightarrow> Returned (r, map_option Overflowed e)))"

text \<open>
  \<open>Scale\<close> calls \<open>ScaleWithOverflowCheck\<close> and keeps the Period only:
  \<open>result, _ := period.ScaleWithOverflowCheck(factor)\<close>.
\<close>

definition Scale ::
  "collapse \<Rightarrow> (int \<Rightarrow> Period \<times> bool) \<Rightarrow> (Period \<Rightarrow> bool \<Rightarrow> bool \<Rightarrow> Period) \<Rightarrow>
   ('f \<Rightarrow> (int \<times> int) option) \<Rightarrow> Period \<Rightarrow> 'f \<Rightarrow> Period outcome" where
  "Scale fl newOf finish toRat period factor =
     (case ScaleWithOverflowCheck fl newOf finish toRat period factor of
        Panic \<Rightarrow> Panic
      | Returned r \<Rightarrow> Returned (fst r))"

text \<open>
  The conversion on whole factors, for evaluating the model: the decimal text of the
  factor \<open>n\<close> is \<open>n.000000\<close>, the rational \<open>n/1\<close>.
\<close>

definition whole_factor :: "int \<Rightarrow> (int \<times> int) option" where
  "whole_factor n = Some (n, 1)"

section \<open>Predicates used in the statements\<close>

text \<open>
  The fast path of \<open>Add\<close> adds in \<open>int16\<close>. \<open>carried\<close> is the unit that \<open>simpleAdd\<close>
  adds to the field of the given designator: the sign of the receiver when both
  operands have a fraction and the sum of the fractions leaves \<open>-99..99\<close>, and nothing
  otherwise. The additions do not wrap when every field-wise sum, with the carried unit,
  is an \<open>int16\<close>.
\<close>

definition carried :: "designator \<Rightarrow> Period \<Rightarrow> Period \<Rightarrow> int" where
  "carried fp a b =
     (if fpart a = fp \<and> fpart b \<noteq> NoFraction \<and>
         (fraction a + fraction b > 99 \<or> fraction a + fraction b < - 99)
      then Sign a else 0)"

definition in_int16 :: "int \<Rightarrow> bool" where
  "in_int16 x \<longleftrightarrow> - 32768 \<le> x \<and> x \<le> 32767"

definition add_fits :: "Period \<Rightarrow> Period \<Rightarrow> bool" where
  "add_fits a b \<longleftrightarrow>
     in_int16 (years a + years b + carried Year a b) \<and>
     in_int16 (months a + months b + carried Month a b) \<and>
     in_int16 (days a + days b + carried Day a b) \<and>
     in_int16 (hours a + hours b + carried Hour a b) \<and>
     in_int16 (minutes a + minutes b + carried Minute a b) \<and>
     in_int16 (seconds a + seconds b + carried Second a b)"

text \<open>
  The three group sums of the general path settle into one sign: all three are
  non-negative, or all three are non-positive, or the year-month sum and the day sum
  are non-positive and the hour-minute-second sum alone is positive, a whole number of
  seconds, with enough whole days beside it for the borrow of \<open>rippleUp\<close>.
\<close>

definition group_sums_settle :: "Period \<Rightarrow> Period \<Rightarrow> bool" where
  "group_sums_settle a b \<longleftrightarrow>
     (0 \<le> centiYM a + centiYM b \<and> 0 \<le> centiDays a + centiDays b \<and>
      0 \<le> centiHMS a + centiHMS b) \<or>
     (centiYM a + centiYM b \<le> 0 \<and> centiDays a + centiDays b \<le> 0 \<and>
      centiHMS a + centiHMS b \<le> 0) \<or>
     (centiYM a + centiYM b \<le> 0 \<and> centiDays a + centiDays b \<le> 0 \<and>
      0 < centiHMS a + centiHMS b \<and> 100 dvd (centiHMS a + centiHMS b) \<and>
      (centiHMS a + centiHMS b) div 100 div 86400 + 1
        \<le> (- (centiDays a + centiDays b)) div 100)"

text \<open>
  What the statements assume of the floating-point stage: from a number of hours
  between 0 and \<open>2^31 - 1\<close> it produces four non-negative numbers that fit in 31 bits.
  The stage of the source divides the hours by the hours of a month, so its months do
  not exceed the hours, and its days, hours and minutes stay below 31, 24 and 60.
\<close>

definition part_ok :: "int \<Rightarrow> bool" where
  "part_ok x \<longleftrightarrow> 0 \<le> x \<and> x \<le> 2147483647"

definition collapse_ok :: "collapse \<Rightarrow> bool" where
  "collapse_ok fl \<longleftrightarrow>
     (\<forall>h. 0 \<le> h \<and> h \<le> 2147483647 \<longrightarrow>
        (case fl h of (deltaMonths, daysI, hoursI, remMinutes) \<Rightarrow>
           part_ok deltaMonths \<and> part_ok daysI \<and> part_ok hoursI \<and> part_ok remMinutes))"

text \<open>
  The exact path of \<open>rationalScale64\<close>: its entry condition
  \<open>cymr == 0 && cdr == 0 && chmsr == 0\<close>, and the period64 made of the three quotients
  that it hands to \<open>toPeriod\<close>.
\<close>

definition divides_exactly :: "int \<Rightarrow> int \<Rightarrow> Period \<Rightarrow> bool" where
  "divides_exactly m d period \<longleftrightarrow>
     i64 (centiYM (fst (absNeg period)) * m) smod d = 0 \<and>
     i64 (centiDays (fst (absNeg period)) * m) smod d = 0 \<and>
     i64 (centiHMS (fst (absNeg period)) * m) smod d = 0"

definition exact64 :: "collapse \<Rightarrow> int \<Rightarrow> int \<Rightarrow> Period \<Rightarrow> period64" where
  "exact64 fl m d period =
     p64Of fl (i64 (i64 (centiYM (fst (absNeg period)) * m) sdiv d))
              (i64 (i64 (centiDays (fst (absNeg period)) * m) sdiv d))
              (i64 (i64 (centiHMS (fst (absNeg period)) * m) sdiv d))
              (snd (absNeg period))"

text \<open>
  The approximate day-to-month stage of \<open>rippleUp\<close> is entered when the day count, with
  the hours folded in once they exceed 32767, is above 32767. For a Period this count
  is read off the magnitudes of its day total and its hour-minute-second total.
\<close>

definition day_collapse_free :: "Period \<Rightarrow> bool" where
  "day_collapse_free p \<longleftrightarrow>
     (if \<bar>centiHMS p\<bar> div 100 div 3600 > 32767
      then \<bar>centiDays p\<bar> div 100 + \<bar>centiHMS p\<bar> div 100 div 3600 div 24
      else \<bar>centiDays p\<bar> div 100) \<le> 32767"

text \<open>All six fields of a period64 between 0 and a bound.\<close>

definition within :: "int \<Rightarrow> period64 \<Rightarrow> bool" where
  "within n p \<longleftrightarrow>
     0 \<le> years64 p \<and> years64 p \<le> n \<and> 0 \<le> months64 p \<and> months64 p \<le> n \<and>
     0 \<le> days64 p \<and> days64 p \<le> n \<and> 0 \<le> hours64 p \<and> hours64 p \<le> n \<and>
     0 \<le> minutes64 p \<and> minutes64 p \<le> n \<and> 0 \<le> seconds64 p \<and> seconds64 p \<le> n"

section \<open>Facts about the machine integers\<close>

lemma i64_idem: "i64 (i64 x) = i64 x"
  by (simp add: i64_def)

lemma i64_id: "- 9223372036854775808 \<le> x \<Longrightarrow> x < 9223372036854775808 \<Longrightarrow> i64 x = x"
  by (simp add: i64_def)

lemma i64_lower: "- 9223372036854775808 \<le> i64 x"
  by (simp add: i64_def)

lemma i64_upper: "i64 x < 9223372036854775808"
proof -
  have "(x + 9223372036854775808) mod 18446744073709551616 < (18446744073709551616::int)"
    by (rule pos_mod_bound) simp
  then show ?thesis by (simp add: i64_def)
qed

lemma i64_shift: "i64 (a + 18446744073709551616 * k) = i64 a"
proof -
  have "a + 18446744073709551616 * k + 9223372036854775808
        = a + 9223372036854775808 + 18446744073709551616 * k" by simp
  then show ?thesis unfolding i64_def by (simp only: mod_mult_self2)
qed

lemma i64_repr: "\<exists>k. i64 x = x + 18446744073709551616 * k"
proof -
  have "(x + 9223372036854775808) mod 18446744073709551616
        = x + 9223372036854775808
          - 18446744073709551616 * ((x + 9223372036854775808) div 18446744073709551616)"
    by (simp only: minus_mult_div_eq_mod)
  then have "i64 x = x + 18446744073709551616 * (- ((x + 9223372036854775808) div 18446744073709551616))"
    unfolding i64_def by simp
  then show ?thesis ..
qed

lemma i64_mult_left: "i64 (i64 x * y) = i64 (x * y)"
proof -
  obtain k where k: "i64 x = x + 18446744073709551616 * k" using i64_repr by blast
  have "i64 x * y = x * y + 18446744073709551616 * (k * y)"
    unfolding k by (simp only: distrib_right mult.assoc)
  then show ?thesis by (simp only: i64_shift)
qed

lemma i16_shift: "i16 (a + 65536 * k) = i16 a"
proof -
  have "a + 65536 * k + 32768 = a + 32768 + 65536 * k" by simp
  then show ?thesis unfolding i16_def by (simp only: mod_mult_self2)
qed

lemma i16_repr: "\<exists>k. i16 x = x + 65536 * k"
proof -
  have "(x + 32768) mod 65536 = x + 32768 - 65536 * ((x + 32768) div 65536)"
    by (simp only: minus_mult_div_eq_mod)
  then have "i16 x = x + 65536 * (- ((x + 32768) div 65536))"
    unfolding i16_def by simp
  then show ?thesis ..
qed

lemma i16_add_left: "i16 (i16 x + y) = i16 (x + y)"
proof -
  obtain k where k: "i16 x = x + 65536 * k" using i16_repr by blast
  have "i16 x + y = x + y + 65536 * k" unfolding k by simp
  then show ?thesis by (simp only: i16_shift)
qed

lemma exact_division_restores:
  assumes "i64 x smod d = 0"
  shows "i64 (i64 (i64 x sdiv d) * d) = i64 x"
proof -
  have "i64 x sdiv d * d + i64 x smod d = i64 x" by (rule sdiv_mult_smod_eq)
  with assms have "i64 x sdiv d * d = i64 x" by simp
  then show ?thesis by (simp add: i64_mult_left i64_idem)
qed


lemma i16_add_right: "i16 (x + i16 y) = i16 (x + y)"
  using i16_add_left [of y x] by (simp add: add.commute)

lemma carry_fields:
  "years (carry fp one p) = (if fp = Year then i16 (years p + one) else years p)"
  "months (carry fp one p) = (if fp = Month then i16 (months p + one) else months p)"
  "days (carry fp one p) = (if fp = Day then i16 (days p + one) else days p)"
  "hours (carry fp one p) = (if fp = Hour then i16 (hours p + one) else hours p)"
  "minutes (carry fp one p) = (if fp = Minute then i16 (minutes p + one) else minutes p)"
  "seconds (carry fp one p) = (if fp = Second then i16 (seconds p + one) else seconds p)"
  by (cases fp; simp add: carry_def)+

section \<open>Facts about rippleUp on small non-negative values\<close>

lemma sdiv_nonneg: "0 \<le> a \<Longrightarrow> 0 < b \<Longrightarrow> a sdiv b = a div (b::int)"
  by (simp add: signed_divide_int_def sgn_if)

lemma smod_nonneg: "0 \<le> a \<Longrightarrow> 0 < b \<Longrightarrow> a smod b = a mod (b::int)"
  by (simp add: signed_modulo_int_def sgn_if)

lemma div_mult_le_int: "0 < (b::int) \<Longrightarrow> a div b * b \<le> a"
proof -
  assume "0 < b"
  then have "0 \<le> a mod b" by simp
  moreover have "a div b * b + a mod b = a" by simp
  ultimately show ?thesis by linarith
qed

lemma hours_minutes_le: "(a::int) div 3600 * 60 \<le> a div 60"
proof -
  have "a div 3600 = a div 60 div 60" using zdiv_zmult2_eq [of 60 a 60] by simp
  then show ?thesis using div_mult_le_int [of 60 "a div 60"] by simp
qed

lemma rippleHMS_small:
  assumes "within 1099511627776 p"
  shows "rippleHMS p =
           p\<lparr>hours64 := (hours64 p * 3600 + minutes64 p * 60 + seconds64 p) div 3600,
             minutes64 := (hours64 p * 3600 + minutes64 p * 60 + seconds64 p) div 60
                          - (hours64 p * 3600 + minutes64 p * 60 + seconds64 p) div 3600 * 60,
             seconds64 := (hours64 p * 3600 + minutes64 p * 60 + seconds64 p) mod 60\<rparr>"
proof -
  let ?h = "hours64 p * 3600 + minutes64 p * 60 + seconds64 p"
  have b: "0 \<le> hours64 p" "hours64 p \<le> 1099511627776" "0 \<le> minutes64 p"
    "minutes64 p \<le> 1099511627776" "0 \<le> seconds64 p" "seconds64 p \<le> 1099511627776"
    using assms by (simp_all add: within_def)
  have h0: "0 \<le> ?h" using b by simp
  have h1: "?h \<le> 4503599627370496" using b by simp
  have e1: "i64 (hours64 p * 3600) = hours64 p * 3600" using b by (intro i64_id) simp_all
  have e2: "i64 (minutes64 p * 60) = minutes64 p * 60" using b by (intro i64_id) simp_all
  have e3: "i64 (hours64 p * 3600 + minutes64 p * 60) = hours64 p * 3600 + minutes64 p * 60"
    using b by (intro i64_id) simp_all
  have e4: "i64 ?h = ?h" using h0 h1 by (intro i64_id) simp_all
  have hms: "i64 (i64 (i64 (hours64 p * 3600) + i64 (minutes64 p * 60)) + seconds64 p) = ?h"
    by (simp only: e1 e2 e3 e4)
  have d1: "?h sdiv 3600 = ?h div 3600" using h0 by (simp only: sdiv_nonneg)
  have d2: "?h sdiv 60 = ?h div 60" using h0 by (simp only: sdiv_nonneg)
  have d3: "?h smod 60 = ?h mod 60" using h0 by (simp only: smod_nonneg)
  have q0: "0 \<le> ?h div 3600" using h0 by simp
  have q1: "?h div 3600 \<le> ?h" using h0 by linarith
  have e5: "i64 (?h div 3600 * 60) = ?h div 3600 * 60"
    using q0 q1 h1 by (intro i64_id) linarith+
  have m0: "?h div 3600 * 60 \<le> ?h div 60" by (rule hours_minutes_le)
  have m1: "?h div 60 \<le> ?h" using h0 by linarith
  have e6: "i64 (?h div 60 - ?h div 3600 * 60) = ?h div 60 - ?h div 3600 * 60"
    using m0 m1 q0 h1 by (intro i64_id) linarith+
  have n: "\<not> ?h < 0" using h0 by simp
  show ?thesis
    unfolding rippleHMS_def Let_def hms
    by (simp only: n if_False d1 d2 d3 e5 e6) simp
qed

lemma rippleHMS_within:
  assumes "within 1099511627776 p"
  shows "within 4503599627370496 (rippleHMS p)"
proof -
  let ?h = "hours64 p * 3600 + minutes64 p * 60 + seconds64 p"
  have b: "0 \<le> hours64 p" "hours64 p \<le> 1099511627776" "0 \<le> minutes64 p"
    "minutes64 p \<le> 1099511627776" "0 \<le> seconds64 p" "seconds64 p \<le> 1099511627776"
    "0 \<le> days64 p" "days64 p \<le> 1099511627776" "0 \<le> years64 p" "years64 p \<le> 1099511627776"
    "0 \<le> months64 p" "months64 p \<le> 1099511627776"
    using assms by (simp_all add: within_def)
  have h0: "0 \<le> ?h" using b by simp
  have h1: "?h \<le> 4503599627370496" using b by simp
  have q0: "0 \<le> ?h div 3600" using h0 by simp
  have q1: "?h div 3600 \<le> ?h" using h0 by linarith
  have m0: "?h div 3600 * 60 \<le> ?h div 60" by (rule hours_minutes_le)
  have m1: "?h div 60 \<le> ?h" using h0 by linarith
  have s0: "0 \<le> ?h mod 60" "?h mod 60 < 60" by simp_all
  show ?thesis
    unfolding rippleHMS_small [OF assms] within_def using b q0 q1 m0 m1 h1 s0 by simp
qed

lemma rippleHours_small:
  assumes "within 4503599627370496 p"
  shows "rippleHours True p =
           (if hours64 p > 32767
            then p\<lparr>days64 := days64 p + hours64 p div 24, hours64 := hours64 p mod 24\<rparr>
            else p)"
proof -
  have b: "0 \<le> hours64 p" "hours64 p \<le> 4503599627370496"
    "0 \<le> days64 p" "days64 p \<le> 4503599627370496"
    using assms by (simp_all add: within_def)
  have d: "hours64 p sdiv 24 = hours64 p div 24" using b by (simp only: sdiv_nonneg)
  have m: "hours64 p smod 24 = hours64 p mod 24" using b by (simp only: smod_nonneg)
  have q: "0 \<le> hours64 p div 24" "hours64 p div 24 \<le> hours64 p" using b by linarith+
  have e: "i64 (days64 p + hours64 p div 24) = days64 p + hours64 p div 24"
    using b q by (intro i64_id) linarith+
  have n: "\<not> hours64 p mod 24 < 0" by simp
  show ?thesis
    unfolding rippleHours_def Let_def d m e MaxInt16_def by (simp only: n if_False) simp
qed

lemma rippleHours_within:
  assumes "within 4503599627370496 p"
  shows "within 9007199254740992 (rippleHours True p)"
proof -
  have b: "0 \<le> hours64 p" "hours64 p \<le> 4503599627370496"
    "0 \<le> days64 p" "days64 p \<le> 4503599627370496"
    "0 \<le> years64 p" "years64 p \<le> 4503599627370496"
    "0 \<le> months64 p" "months64 p \<le> 4503599627370496"
    "0 \<le> minutes64 p" "minutes64 p \<le> 4503599627370496"
    "0 \<le> seconds64 p" "seconds64 p \<le> 4503599627370496"
    using assms by (simp_all add: within_def)
  have q: "0 \<le> hours64 p div 24" "hours64 p div 24 \<le> hours64 p" using b by linarith+
  have r: "0 \<le> hours64 p mod 24" "hours64 p mod 24 \<le> 9007199254740992"
    using pos_mod_bound [of 24 "hours64 p"] by simp_all
  show ?thesis
    unfolding rippleHours_small [OF assms] within_def using b q r by simp
qed

lemma rippleMonths_small:
  assumes "within 18014398509481984 p"
  shows "rippleMonths p =
           p\<lparr>years64 := years64 p + months64 p div 12, months64 := months64 p mod 12\<rparr>"
proof -
  have b: "0 \<le> months64 p" "months64 p \<le> 18014398509481984"
    "0 \<le> years64 p" "years64 p \<le> 18014398509481984"
    using assms by (simp_all add: within_def)
  have d: "months64 p sdiv 12 = months64 p div 12" using b by (simp only: sdiv_nonneg)
  have m: "months64 p smod 12 = months64 p mod 12" using b by (simp only: smod_nonneg)
  have q: "0 \<le> months64 p div 12" "months64 p div 12 \<le> months64 p" using b by linarith+
  have e: "i64 (years64 p + months64 p div 12) = years64 p + months64 p div 12"
    using b q by (intro i64_id) linarith+
  show ?thesis
    unfolding rippleMonths_def d m e by (cases "months64 p = 0") simp_all
qed

lemma rippleMonths_within:
  assumes "within 18014398509481984 p"
  shows "within 36028797018963968 (rippleMonths p)"
proof -
  have b: "0 \<le> hours64 p" "hours64 p \<le> 18014398509481984"
    "0 \<le> days64 p" "days64 p \<le> 18014398509481984"
    "0 \<le> years64 p" "years64 p \<le> 18014398509481984"
    "0 \<le> months64 p" "months64 p \<le> 18014398509481984"
    "0 \<le> minutes64 p" "minutes64 p \<le> 18014398509481984"
    "0 \<le> seconds64 p" "seconds64 p \<le> 18014398509481984"
    using assms by (simp_all add: within_def)
  have q: "0 \<le> months64 p div 12" "months64 p div 12 \<le> months64 p" using b by linarith+
  have r: "0 \<le> months64 p mod 12" "months64 p mod 12 < 12" by simp_all
  show ?thesis
    unfolding rippleMonths_small [OF assms] within_def using b q r by simp
qed

lemma rippleDays_idle:
  assumes "0 \<le> days64 p" and "days64 p \<le> 32767"
  shows "rippleDays fl p = p"
  using assms by (simp add: rippleDays_def MaxInt16_def)

lemma rippleHMS_keeps:
  "fraction64 (rippleHMS p) = fraction64 p" "fpart64 (rippleHMS p) = fpart64 p"
  "neg (rippleHMS p) = neg p" "input (rippleHMS p) = input p"
  by (simp_all add: rippleHMS_def Let_def)

lemma rippleHours_keeps:
  "fraction64 (rippleHours pr p) = fraction64 p" "fpart64 (rippleHours pr p) = fpart64 p"
  "neg (rippleHours pr p) = neg p" "input (rippleHours pr p) = input p"
  by (simp_all add: rippleHours_def Let_def)

lemma rippleDays_keeps:
  "fraction64 (rippleDays fl p) = fraction64 p" "fpart64 (rippleDays fl p) = fpart64 p"
  "neg (rippleDays fl p) = neg p" "input (rippleDays fl p) = input p"
  by (simp_all add: rippleDays_def Let_def split: prod.splits)

lemma rippleMonths_keeps:
  "fraction64 (rippleMonths p) = fraction64 p" "fpart64 (rippleMonths p) = fpart64 p"
  "neg (rippleMonths p) = neg p" "input (rippleMonths p) = input p"
  by (simp_all add: rippleMonths_def)

lemma rippleUp_keeps:
  "fraction64 (rippleUp fl pr p) = fraction64 p" "fpart64 (rippleUp fl pr p) = fpart64 p"
  "neg (rippleUp fl pr p) = neg p" "input (rippleUp fl pr p) = input p"
  by (simp_all add: rippleUp_def rippleHMS_keeps rippleHours_keeps rippleDays_keeps
      rippleMonths_keeps)

lemma normalise64_precise_plain:
  assumes "fpart64 p \<noteq> Year" and "fpart64 p \<noteq> Hour" and "fpart64 p \<noteq> Minute"
  shows "normalise64 fl True p = rippleUp fl True p"
  using assms
  by (simp add: normalise64_def reduceYearsFraction_def reduceDaysFraction_def
      reduceHoursFraction_def reduceMinutesFraction_def rippleUp_keeps)

lemma p64Of_plain:
  "p64Of fl cym cd chms ng =
     rippleUp fl True
       (Period64Of 0 (cym sdiv 100) (cd sdiv 100) 0 0 (chms sdiv 100)
          (if chms smod 100 \<noteq> 0 then i8 (chms smod 100)
           else if cd smod 100 \<noteq> 0 then i8 (cd smod 100)
           else if cym smod 100 \<noteq> 0 then i8 (cym smod 100) else 0)
          (if chms smod 100 \<noteq> 0 then Second
           else if cd smod 100 \<noteq> 0 then Day
           else if cym smod 100 \<noteq> 0 then Month else NoFraction)
          ng [])"
  by (simp add: p64Of_def Let_def normalise64_precise_plain)

lemma i8_small: "- 128 \<le> x \<Longrightarrow> x \<le> 127 \<Longrightarrow> i8 x = x"
  by (simp add: i8_def)

lemma i16_small: "- 32768 \<le> x \<Longrightarrow> x \<le> 32767 \<Longrightarrow> i16 x = x"
  by (simp add: i16_def)

lemma sign_invariant_Period0: "sign_invariant Period0"
  by (simp add: sign_invariant_def nonneg_Period_def Period0_def)

lemma toPeriod_sign_invariant:
  assumes "within n p" and "0 \<le> fraction64 p" and "fraction64 p \<le> 99"
  shows "sign_invariant (fst (toPeriod p))"
proof (cases "overflowing p = []")
  case False
  then show ?thesis by (simp add: toPeriod_def Let_def sign_invariant_Period0)
next
  case True
  have b: "0 \<le> years64 p" "0 \<le> months64 p" "0 \<le> days64 p" "0 \<le> hours64 p"
    "0 \<le> minutes64 p" "0 \<le> seconds64 p"
    using assms(1) by (simp_all add: within_def)
  have u: "years64 p \<le> 32767" "months64 p \<le> 32767" "days64 p \<le> 32767"
    "hours64 p \<le> 32767" "minutes64 p \<le> 32767" "seconds64 p \<le> 32767"
    using True by (simp_all add: overflowing_def MaxInt16_def split: if_splits)
  have pos: "i16 (years64 p) = years64 p" "i16 (months64 p) = months64 p"
    "i16 (days64 p) = days64 p" "i16 (hours64 p) = hours64 p"
    "i16 (minutes64 p) = minutes64 p" "i16 (seconds64 p) = seconds64 p"
    using b u by (simp_all add: i16_small)
  have n64: "i64 (- years64 p) = - years64 p" "i64 (- months64 p) = - months64 p"
    "i64 (- days64 p) = - days64 p" "i64 (- hours64 p) = - hours64 p"
    "i64 (- minutes64 p) = - minutes64 p" "i64 (- seconds64 p) = - seconds64 p"
    using b u by (simp_all add: i64_id)
  have n16: "i16 (- years64 p) = - years64 p" "i16 (- months64 p) = - months64 p"
    "i16 (- days64 p) = - days64 p" "i16 (- hours64 p) = - hours64 p"
    "i16 (- minutes64 p) = - minutes64 p" "i16 (- seconds64 p) = - seconds64 p"
    using b u by (simp_all add: i16_small)
  have n8: "i8 (- fraction64 p) = - fraction64 p" using assms(2,3) by (simp add: i8_small)
  show ?thesis
    using True b assms(2)
    by (simp add: toPeriod_def Let_def pos n64 n16 n8 sign_invariant_def nonneg_Period_def
        nonpos_Period_def)
qed

lemma hms_recombine:
  "60 * y + z = s \<Longrightarrow> 3600 * x + 60 * (y - x * 60) + z = (s::int)"
  by simp

lemma day_recombine:
  "24 * q + r = x \<Longrightarrow> 86400 * q + 3600 * r = 3600 * (x::int)"
  by simp

lemma total_fold:
  assumes "3600 * h + 60 * mi + s = S" and "86400 * q + 3600 * r = 3600 * h"
  shows "86400 * (D + q) + 3600 * r + 60 * mi + s = 86400 * D + (S::int)"
  using assms by simp

lemma total_plain:
  assumes "3600 * h + 60 * mi + s = S"
  shows "86400 * D + 3600 * h + 60 * mi + s = 86400 * D + (S::int)"
  using assms by simp

lemma rippleUp_totals:
  assumes "0 \<le> M" and "M \<le> 1099511627776"
    and "0 \<le> D" and "D \<le> 1099511627776"
    and "0 \<le> S" and "S \<le> 1099511627776"
    and "(if S div 3600 > 32767 then D + S div 3600 div 24 else D) \<le> 32767"
  shows "12 * years64 (rippleUp fl True (Period64Of 0 M D 0 0 S F FP ng inp))
           + months64 (rippleUp fl True (Period64Of 0 M D 0 0 S F FP ng inp)) = M"
    and "86400 * days64 (rippleUp fl True (Period64Of 0 M D 0 0 S F FP ng inp))
           + 3600 * hours64 (rippleUp fl True (Period64Of 0 M D 0 0 S F FP ng inp))
           + 60 * minutes64 (rippleUp fl True (Period64Of 0 M D 0 0 S F FP ng inp))
           + seconds64 (rippleUp fl True (Period64Of 0 M D 0 0 S F FP ng inp))
           = 86400 * D + S"
    and "within 36028797018963968 (rippleUp fl True (Period64Of 0 M D 0 0 S F FP ng inp))"
proof -
  let ?raw = "Period64Of 0 M D 0 0 S F FP ng inp"
  define H where "H = S div 3600"
  define Mi where "Mi = S div 60 - S div 3600 * 60"
  define Se where "Se = S mod 60"
  define Q where "Q = H div 24"
  define R where "R = H mod 24"
  define Y where "Y = M div 12"
  define Mo where "Mo = M mod 12"
  have w0: "within 1099511627776 ?raw" using assms(1-6) by (simp add: within_def)
  define p1 where "p1 = rippleHMS ?raw"
  have p1: "p1 = Period64Of 0 M D H Mi Se F FP ng inp"
    unfolding p1_def rippleHMS_small [OF w0] H_def Mi_def Se_def by simp
  have w1: "within 4503599627370496 p1" unfolding p1_def by (rule rippleHMS_within [OF w0])
  define p2 where "p2 = rippleHours True p1"
  have s1: "hours64 p1 = H" "days64 p1 = D" by (simp_all add: p1)
  have p2: "p2 = (if H > 32767 then p1\<lparr>days64 := D + Q, hours64 := R\<rparr> else p1)"
    unfolding p2_def rippleHours_small [OF w1] s1 Q_def R_def by (rule refl)
  have w2: "within 9007199254740992 p2" unfolding p2_def by (rule rippleHours_within [OF w1])
  have a7: "(if H > 32767 then D + Q else D) \<le> 32767"
    using assms(7) unfolding H_def Q_def .
  have f2: "days64 p2 = (if H > 32767 then D + Q else D)"
    "hours64 p2 = (if H > 32767 then R else H)"
    "minutes64 p2 = Mi" "seconds64 p2 = Se" "years64 p2 = 0" "months64 p2 = M"
    unfolding p2 by (simp_all add: p1)
  have dl: "0 \<le> days64 p2" using w2 by (simp add: within_def)
  have du: "days64 p2 \<le> 32767" unfolding f2 by (rule a7)
  have p3: "rippleDays fl p2 = p2" using dl du by (rule rippleDays_idle)
  have w3: "within 18014398509481984 p2" using w2 by (simp add: within_def)
  have res: "rippleUp fl True ?raw = rippleMonths p2"
    unfolding rippleUp_def by (simp only: p1_def [symmetric] p2_def [symmetric] p3)
  have p4: "rippleMonths p2 = p2\<lparr>years64 := Y, months64 := Mo\<rparr>"
    unfolding rippleMonths_small [OF w3] f2 Y_def Mo_def by simp
  have ym: "12 * Y + Mo = M" unfolding Y_def Mo_def by simp
  show "12 * years64 (rippleUp fl True ?raw) + months64 (rippleUp fl True ?raw) = M"
    unfolding res p4 using ym by simp
  have t0: "60 * (S div 60) + S mod 60 = S" by simp
  have t1: "3600 * H + 60 * Mi + Se = S"
    unfolding H_def Mi_def Se_def using t0 by (rule hms_recombine)
  have t2: "86400 * Q + 3600 * R = 3600 * H"
    unfolding Q_def R_def by (rule day_recombine) simp
  have tot: "86400 * days64 p2 + 3600 * hours64 p2 + 60 * minutes64 p2 + seconds64 p2
               = 86400 * D + S"
  proof (cases "H > 32767")
    case True
    have "86400 * (D + Q) + 3600 * R + 60 * Mi + Se = 86400 * D + S"
      using t1 t2 by (rule total_fold)
    then show ?thesis unfolding f2 using True by simp
  next
    case False
    have "86400 * D + 3600 * H + 60 * Mi + Se = 86400 * D + S"
      using t1 by (rule total_plain)
    then show ?thesis unfolding f2 using False by simp
  qed
  show "86400 * days64 (rippleUp fl True ?raw) + 3600 * hours64 (rippleUp fl True ?raw)
           + 60 * minutes64 (rippleUp fl True ?raw) + seconds64 (rippleUp fl True ?raw)
           = 86400 * D + S"
    unfolding res p4 using tot by simp
  show "within 36028797018963968 (rippleUp fl True ?raw)"
    unfolding res by (rule rippleMonths_within [OF w3])
qed

section \<open>The sign invariant under Add\<close>

lemma centi_bounds:
  assumes "valid_Period a"
  shows "\<bar>centiYM a\<bar> \<le> 34359738368" and "\<bar>centiDays a\<bar> \<le> 34359738368"
    and "\<bar>centiHMS a\<bar> \<le> 34359738368"
proof -
  have b: "- 32767 \<le> years a" "years a \<le> 32767" "- 32767 \<le> months a" "months a \<le> 32767"
    "- 32767 \<le> days a" "days a \<le> 32767" "- 32767 \<le> hours a" "hours a \<le> 32767"
    "- 32767 \<le> minutes a" "minutes a \<le> 32767" "- 32767 \<le> seconds a" "seconds a \<le> 32767"
    "- 99 \<le> fraction a" "fraction a \<le> 99"
    using assms by (simp_all add: valid_Period_def field_ok_def)
  show "\<bar>centiYM a\<bar> \<le> 34359738368"
    using b by (cases "fpart a") (simp_all add: centiYM_def)
  show "\<bar>centiDays a\<bar> \<le> 34359738368"
    using b by (cases "fpart a") (simp_all add: centiDays_def)
  show "\<bar>centiHMS a\<bar> \<le> 34359738368"
    using b by (cases "fpart a") (simp_all add: centiHMS_def)
qed

lemma Sign_cases: "Sign p = - 1 \<or> Sign p = 0 \<or> Sign p = 1"
  by (simp add: Sign_def)

lemma i16_Sign: "i16 (Sign p) = Sign p"
  using Sign_cases [of p] by (auto simp add: i16_def)

lemma simpleAdd_fields:
  "years (simpleAdd a b) =
     i16 (years a + years b +
          (if fpart a = Year \<and> fpart b \<noteq> NoFraction \<and>
              (fraction a + fraction b > 99 \<or> fraction a + fraction b < - 99)
           then Sign a else 0))"
  "months (simpleAdd a b) =
     i16 (months a + months b +
          (if fpart a = Month \<and> fpart b \<noteq> NoFraction \<and>
              (fraction a + fraction b > 99 \<or> fraction a + fraction b < - 99)
           then Sign a else 0))"
  "days (simpleAdd a b) =
     i16 (days a + days b +
          (if fpart a = Day \<and> fpart b \<noteq> NoFraction \<and>
              (fraction a + fraction b > 99 \<or> fraction a + fraction b < - 99)
           then Sign a else 0))"
  "hours (simpleAdd a b) =
     i16 (hours a + hours b +
          (if fpart a = Hour \<and> fpart b \<noteq> NoFraction \<and>
              (fraction a + fraction b > 99 \<or> fraction a + fraction b < - 99)
           then Sign a else 0))"
  "minutes (simpleAdd a b) =
     i16 (minutes a + minutes b +
          (if fpart a = Minute \<and> fpart b \<noteq> NoFraction \<and>
              (fraction a + fraction b > 99 \<or> fraction a + fraction b < - 99)
           then Sign a else 0))"
  "seconds (simpleAdd a b) =
     i16 (seconds a + seconds b +
          (if fpart a = Second \<and> fpart b \<noteq> NoFraction \<and>
              (fraction a + fraction b > 99 \<or> fraction a + fraction b < - 99)
           then Sign a else 0))"
  "fraction (simpleAdd a b) =
     i8 (if fpart a = NoFraction then fraction b
         else if fpart b = NoFraction then fraction a
         else if fraction a + fraction b > 99 \<or> fraction a + fraction b < - 99
         then (fraction a + fraction b) smod 100
         else fraction a + fraction b)"
  by (simp_all add: simpleAdd_def Let_def carry_fields i16_add_left i16_add_right i16_Sign ac_simps)


lemma smod_100_nonneg: "0 \<le> x \<Longrightarrow> 0 \<le> x smod 100 \<and> x smod 100 \<le> (99::int)"
  using pos_mod_bound [of 100 x] by (simp add: smod_nonneg)

lemma smod_100_nonpos: "x \<le> 0 \<Longrightarrow> - 99 \<le> x smod 100 \<and> x smod 100 \<le> (0::int)"
proof -
  assume x: "x \<le> 0"
  have "x smod 100 = - ((- x) mod 100)"
    using x by (cases "x = 0") (simp_all add: signed_modulo_int_def sgn_if)
  then show ?thesis using pos_mod_bound [of 100 "- x"] by simp
qed

subsection \<open>The floating-point stage\<close>

lemma collapse_exact_ok: "collapse_ok collapse_exact"
  unfolding collapse_ok_def
proof (intro allI impI)
  fix h :: int
  assume hb: "0 \<le> h \<and> h \<le> 2147483647"
  define n where "n = 200 * h"
  define dm where "dm = n div 146097"
  define r1 where "r1 = n mod 146097"
  define dd where "dd = r1 div 4800"
  define r2 where "r2 = r1 mod 4800"
  define t where "t = 1800 * r2 + 1"
  define hh where "hh = t div 360000"
  define r3 where "r3 = t mod 360000"
  define mm where "mm = r3 div 6000"
  have n0: "0 \<le> n" using hb by (simp add: n_def)
  have r10: "0 \<le> r1" "r1 \<le> 146097"
    using pos_mod_bound [of 146097 n] by (simp_all add: r1_def)
  have r20: "0 \<le> r2" "r2 \<le> 4800"
    using pos_mod_bound [of 4800 r1] by (simp_all add: r2_def)
  have t0: "0 \<le> t" "t \<le> 8640001" using r20 by (simp_all add: t_def)
  have r30: "0 \<le> r3" "r3 \<le> 360000"
    using pos_mod_bound [of 360000 t] by (simp_all add: r3_def)
  have dm0: "0 \<le> dm" using n0 by (simp add: dm_def)
  have "n div 146097 \<le> (146097 * h) div 146097"
    using hb by (intro zdiv_mono1) (simp_all add: n_def)
  then have dm1: "dm \<le> h" by (simp add: dm_def)
  have dd0: "0 \<le> dd" using r10 by (simp add: dd_def)
  have dd1: "dd \<le> r1" unfolding dd_def using r10(1) zdiv_mono2 [of r1 1 4800] by simp
  have hh0: "0 \<le> hh" using t0 by (simp add: hh_def)
  have hh1: "hh \<le> t" unfolding hh_def using t0(1) zdiv_mono2 [of t 1 360000] by simp
  have mm0: "0 \<le> mm" using r30 by (simp add: mm_def)
  have mm1: "mm \<le> r3" unfolding mm_def using r30(1) zdiv_mono2 [of r3 1 6000] by simp
  have s1: "n sdiv 146097 = dm" "n smod 146097 = r1"
    using n0 by (simp_all add: sdiv_nonneg smod_nonneg dm_def r1_def)
  have s2: "r1 sdiv 4800 = dd" "r1 smod 4800 = r2"
    using r10 by (simp_all add: sdiv_nonneg smod_nonneg dd_def r2_def)
  have s3: "t sdiv 360000 = hh" "t smod 360000 = r3"
    using t0 by (simp_all add: sdiv_nonneg smod_nonneg hh_def r3_def)
  have s4: "r3 sdiv 6000 = mm" using r30 by (simp add: sdiv_nonneg mm_def)
  have e: "collapse_exact h = (dm, dd, hh, mm)"
    unfolding collapse_exact_def Let_def n_def [symmetric] s1 s2 t_def [symmetric] s3 s4
    by (rule refl)
  have "part_ok dm" "part_ok dd" "part_ok hh" "part_ok mm"
    unfolding part_ok_def using hb dm0 dm1 dd0 dd1 r10 hh0 hh1 t0 mm0 mm1 r30 by linarith+
  then show "case collapse_exact h of
               (deltaMonths, daysI, hoursI, remMinutes) \<Rightarrow>
                 part_ok deltaMonths \<and> part_ok daysI \<and> part_ok hoursI \<and> part_ok remMinutes"
    unfolding e by simp
qed

subsection \<open>The general path\<close>

lemma rippleDays_within:
  assumes "collapse_ok fl" and "within 9007199254740992 p"
    and "days64 p * 24 + hours64 p \<le> 2147483647"
  shows "within 18014398509481984 (rippleDays fl p)"
proof (cases "days64 p \<le> 32767")
  case True
  have "0 \<le> days64 p" using assms(2) by (simp add: within_def)
  then have "rippleDays fl p = p" using True by (rule rippleDays_idle)
  then show ?thesis using assms(2) by (simp add: within_def)
next
  case False
  have b: "0 \<le> hours64 p" "hours64 p \<le> 9007199254740992"
    "0 \<le> days64 p" "days64 p \<le> 9007199254740992"
    "0 \<le> years64 p" "years64 p \<le> 9007199254740992"
    "0 \<le> months64 p" "months64 p \<le> 9007199254740992"
    "0 \<le> minutes64 p" "minutes64 p \<le> 9007199254740992"
    "0 \<le> seconds64 p" "seconds64 p \<le> 9007199254740992"
    using assms(2) by (simp_all add: within_def)
  let ?t = "days64 p * 24 + hours64 p"
  have t0: "0 \<le> ?t" using b by simp
  have e1: "i64 (days64 p * 24) = days64 p * 24" using b by (intro i64_id) simp_all
  have e2: "i64 ?t = ?t" using b by (intro i64_id) simp_all
  obtain dm dd hh mm where f: "fl ?t = (dm, dd, hh, mm)" by (cases "fl ?t") auto
  have ok: "part_ok dm" "part_ok dd" "part_ok hh" "part_ok mm"
    using assms(1,3) t0 f by (auto simp add: collapse_ok_def)
  then have r: "0 \<le> dm" "dm \<le> 2147483647" "0 \<le> dd" "dd \<le> 2147483647"
    "0 \<le> hh" "hh \<le> 2147483647" "0 \<le> mm" "mm \<le> 2147483647"
    by (simp_all add: part_ok_def)
  have i1: "i64 dm = dm" "i64 dd = dd" "i64 hh = hh" "i64 mm = mm"
    using r by (simp_all add: i64_id)
  have i2: "i64 (months64 p + dm) = months64 p + dm" using b r by (intro i64_id) linarith+
  have i3: "i64 (minutes64 p + mm) = minutes64 p + mm" using b r by (intro i64_id) linarith+
  have d: "hh sdiv 24 = hh div 24" using r by (simp only: sdiv_nonneg)
  have m: "hh smod 24 = hh mod 24" using r by (simp only: smod_nonneg)
  have q: "0 \<le> hh div 24" "hh div 24 \<le> hh" using r by linarith+
  have i4: "i64 (dd + hh div 24) = dd + hh div 24" using r q by (intro i64_id) linarith+
  have md: "0 \<le> hh mod 24" "hh mod 24 \<le> 18014398509481984"
    using pos_mod_bound [of 24 hh] by simp_all
  have c: "days64 p > MaxInt16 \<or> days64 p < 0" using False by (simp add: MaxInt16_def)
  have eq: "rippleDays fl p =
          (if 24 \<le> hh
           then p\<lparr>months64 := months64 p + dm, days64 := dd + hh div 24,
                  hours64 := hh mod 24, minutes64 := minutes64 p + mm\<rparr>
           else p\<lparr>months64 := months64 p + dm, days64 := dd,
                  hours64 := hh, minutes64 := minutes64 p + mm\<rparr>)"
    unfolding rippleDays_def e1 e2 f using c
    by (simp add: Let_def i1 i2 i3 i4 d m)
  show ?thesis unfolding eq within_def using b r q md by simp
qed

lemma fold_hours_total: "24 * q + r = h \<Longrightarrow> (d + q) * 24 + r = d * 24 + (h::int)"
  by simp

lemma ripple_rest_within:
  assumes "collapse_ok fl" and "within 4503599627370496 p"
    and "days64 p \<le> 67108864" and "hours64 p \<le> 33554432"
  shows "within 36028797018963968 (rippleMonths (rippleDays fl (rippleHours True p)))"
proof -
  define D where "D = days64 p"
  define H where "H = hours64 p"
  define Q where "Q = H div 24"
  define R where "R = H mod 24"
  have b: "0 \<le> D" "D \<le> 67108864" "0 \<le> H" "H \<le> 33554432"
    using assms(2,3,4) by (simp_all add: within_def D_def H_def)
  define p2 where "p2 = rippleHours True p"
  have p2: "p2 = (if H > 32767 then p\<lparr>days64 := D + Q, hours64 := R\<rparr> else p)"
    unfolding p2_def rippleHours_small [OF assms(2)] D_def H_def Q_def R_def by (rule refl)
  have w2: "within 9007199254740992 p2"
    unfolding p2_def by (rule rippleHours_within [OF assms(2)])
  have f: "days64 p2 = (if H > 32767 then D + Q else D)"
    "hours64 p2 = (if H > 32767 then R else H)"
    unfolding p2 by (simp_all add: D_def H_def)
  have qr: "24 * Q + R = H" unfolding Q_def R_def by simp
  have t: "days64 p2 * 24 + hours64 p2 = D * 24 + H"
  proof (cases "H > 32767")
    case True
    have "(D + Q) * 24 + R = D * 24 + H" using qr by (rule fold_hours_total)
    then show ?thesis unfolding f using True by simp
  next
    case False
    then show ?thesis unfolding f by simp
  qed
  have h: "days64 p2 * 24 + hours64 p2 \<le> 2147483647" unfolding t using b by simp
  have w3: "within 18014398509481984 (rippleDays fl p2)"
    using assms(1) w2 h by (rule rippleDays_within)
  show ?thesis unfolding p2_def [symmetric] by (rule rippleMonths_within [OF w3])
qed

lemma rippleHMS_borrow:
  assumes "0 < T" and "T \<le> 1099511627776" and "0 \<le> D" and "D \<le> 1099511627776"
  shows "rippleHMS (Period64Of 0 M D 0 0 (- T) F FP ng inp) =
           Period64Of 0 M (D - T div 86400 - 1)
             ((86400 - T mod 86400) div 3600)
             ((86400 - T mod 86400) div 60 - (86400 - T mod 86400) div 3600 * 60)
             ((86400 - T mod 86400) mod 60) F FP ng inp"
proof -
  define Q where "Q = T div 86400"
  define Rm where "Rm = T mod 86400"
  define R where "R = 86400 - Rm"
  have tq: "86400 * Q + Rm = T" unfolding Q_def Rm_def by simp
  have q0: "0 \<le> Q" using assms(1) by (simp add: Q_def)
  have q1: "Q \<le> T" unfolding Q_def using assms(1) zdiv_mono2 [of T 1 86400] by simp
  have rm: "0 \<le> Rm" "Rm < 86400" using pos_mod_bound [of 86400 T] by (simp_all add: Rm_def)
  have r: "0 < R" "R \<le> 86400" using rm by (simp_all add: R_def)
  have z: "i64 0 = 0" by (simp add: i64_def)
  have e0: "i64 (- T) = - T" using assms(1,2) by (intro i64_id) simp_all
  have sd: "T sdiv 86400 = Q" using assms(1) by (simp add: sdiv_nonneg Q_def)
  have e1: "i64 (- Q - 1) = - Q - 1" using q0 q1 assms(2) by (intro i64_id) linarith+
  have e2: "i64 (D + (- Q - 1)) = D - Q - 1"
  proof -
    have "i64 (D + (- Q - 1)) = D + (- Q - 1)"
      using q0 q1 assms(2,3,4) by (intro i64_id) linarith+
    then show ?thesis by simp
  qed
  have e3: "i64 (- (Q * 86400) - 86400) = - (Q * 86400) - 86400"
    using q0 q1 assms(2) by (intro i64_id) linarith+
  have hm: "- T - (- (Q * 86400) - 86400) = R" using tq by (simp add: R_def)
  have e4: "i64 (- T - (- (Q * 86400) - 86400)) = R"
    unfolding hm using r by (intro i64_id) simp_all
  have d1: "R sdiv 3600 = R div 3600" "R sdiv 60 = R div 60" "R smod 60 = R mod 60"
    using r by (simp_all add: sdiv_nonneg smod_nonneg)
  have h0: "0 \<le> R div 3600" using r by simp
  have h1: "R div 3600 \<le> R" using r(1) zdiv_mono2 [of R 1 3600] by simp
  have e5: "i64 (R div 3600 * 60) = R div 3600 * 60" using h0 h1 r by (intro i64_id) linarith+
  have m0: "R div 3600 * 60 \<le> R div 60" by (rule hours_minutes_le)
  have m1: "R div 60 \<le> R" using r(1) zdiv_mono2 [of R 1 60] by simp
  have e6: "i64 (R div 60 - R div 3600 * 60) = R div 60 - R div 3600 * 60"
    using m0 m1 h0 r by (intro i64_id) linarith+
  have "rippleHMS (Period64Of 0 M D 0 0 (- T) F FP ng inp) =
          Period64Of 0 M (D - Q - 1) (R div 3600) (R div 60 - R div 3600 * 60) (R mod 60)
            F FP ng inp"
    unfolding rippleHMS_def Let_def
    using assms(1) by (simp add: z e0 sd e1 e2 e3 e4 d1 e5 e6)
  then show ?thesis unfolding R_def Rm_def Q_def .
qed

lemma sdiv_exact_100: "(100 * k) sdiv 100 = (k::int)"
  by (simp add: signed_divide_int_def abs_mult sgn_mult mult_sgn_abs)

lemma smod_exact_100: "(100 * k) smod 100 = (0::int)"
  by (simp add: signed_modulo_int_def abs_mult)

lemma rippleUp_raw_within:
  assumes "collapse_ok fl"
    and "0 \<le> M" and "M \<le> 1099511627776"
    and "0 \<le> D" and "D \<le> 67108864"
    and "- 68719476736 \<le> S" and "S \<le> 68719476736"
    and "S < 0 \<longrightarrow> (- S) div 86400 + 1 \<le> D"
  shows "within 36028797018963968 (rippleUp fl True (Period64Of 0 M D 0 0 S F FP ng inp))"
proof -
  let ?raw = "Period64Of 0 M D 0 0 S F FP ng inp"
  define p1 where "p1 = rippleHMS ?raw"
  have main: "within 4503599627370496 p1 \<and> days64 p1 \<le> 67108864 \<and> hours64 p1 \<le> 33554432"
  proof (cases "0 \<le> S")
    case True
    have w0: "within 1099511627776 ?raw" using assms(2-7) True by (simp add: within_def)
    define H where "H = S div 3600"
    have "S div 3600 \<le> 68719476736 div 3600" using assms(7) by (intro zdiv_mono1) simp_all
    then have hb: "H \<le> 33554432" by (simp add: H_def)
    have e: "p1 = Period64Of 0 M D H (S div 60 - S div 3600 * 60) (S mod 60) F FP ng inp"
      unfolding p1_def rippleHMS_small [OF w0] H_def by simp
    have w1: "within 4503599627370496 p1" unfolding p1_def by (rule rippleHMS_within [OF w0])
    have "days64 p1 = D" "hours64 p1 = H" by (simp_all add: e)
    then show ?thesis using w1 hb assms(5) by simp
  next
    case False
    define T where "T = - S"
    have t: "0 < T" "T \<le> 1099511627776" using False assms(6) by (simp_all add: T_def)
    have s: "S = - T" by (simp add: T_def)
    define Q where "Q = T div 86400"
    define R where "R = 86400 - T mod 86400"
    define H where "H = R div 3600"
    define Mi where "Mi = R div 60 - R div 3600 * 60"
    define Se where "Se = R mod 60"
    have d4: "D \<le> 1099511627776" using assms(5) by simp
    have e: "p1 = Period64Of 0 M (D - Q - 1) H Mi Se F FP ng inp"
      unfolding p1_def s rippleHMS_borrow [OF t assms(4) d4] Q_def R_def H_def Mi_def Se_def
      by (rule refl)
    have q0: "0 \<le> Q" using t(1) by (simp add: Q_def)
    have bq: "Q + 1 \<le> D" using assms(8) False by (simp add: Q_def T_def)
    have r: "0 < R" "R \<le> 86400"
      using pos_mod_bound [of 86400 T] pos_mod_sign [of 86400 T] by (simp_all add: R_def)
    have h0: "0 \<le> H" using r by (simp add: H_def)
    have "R div 3600 \<le> 86400 div 3600" using r(2) by (intro zdiv_mono1) simp_all
    then have h1: "H \<le> 24" by (simp add: H_def)
    have m0: "0 \<le> Mi" unfolding Mi_def using hours_minutes_le [of R] by simp
    have "R div 60 \<le> 86400 div 60" using r(2) by (intro zdiv_mono1) simp_all
    then have m1: "Mi \<le> 1440" unfolding Mi_def H_def [symmetric] using h0 by simp
    have s0: "0 \<le> Se" "Se \<le> 60" using pos_mod_bound [of 60 R] by (simp_all add: Se_def)
    show ?thesis
      unfolding e within_def using assms(2-5) q0 bq h0 h1 m0 m1 s0 by simp
  qed
  show ?thesis
    unfolding rippleUp_def p1_def [symmetric]
    using assms(1) main by (intro ripple_rest_within) simp_all
qed

lemma p64Of_within:
  assumes "collapse_ok fl"
    and "0 \<le> cym" and "cym \<le> 1099511627776"
    and "0 \<le> cd" and "cd \<le> 67108864"
    and "- 68719476736 \<le> chms" and "chms \<le> 68719476736"
    and "chms < 0 \<longrightarrow> 100 dvd chms \<and> (- chms) div 100 div 86400 + 1 \<le> cd div 100"
  shows "within 36028797018963968 (p64Of fl cym cd chms ng)"
    and "0 \<le> fraction64 (p64Of fl cym cd chms ng)"
    and "fraction64 (p64Of fl cym cd chms ng) \<le> 99"
proof -
  define M where "M = cym div 100"
  define D where "D = cd div 100"
  define a where "a = cym mod 100"
  define b where "b = cd mod 100"
  define S where "S = chms sdiv 100"
  define c where "c = chms smod 100"
  have d: "cym sdiv 100 = M" "cd sdiv 100 = D"
    using assms(2,4) by (simp_all add: sdiv_nonneg M_def D_def)
  have m: "cym smod 100 = a" "cd smod 100 = b"
    using assms(2,4) by (simp_all add: smod_nonneg a_def b_def)
  have q: "0 \<le> M" "M \<le> 1099511627776" "0 \<le> D" "D \<le> 67108864"
    using assms(2-5) unfolding M_def D_def by linarith+
  have r: "0 \<le> a" "a \<le> 99" "0 \<le> b" "b \<le> 99"
    using pos_mod_bound [of 100 cym] pos_mod_bound [of 100 cd] by (simp_all add: a_def b_def)
  have sc: "- 68719476736 \<le> S \<and> S \<le> 68719476736 \<and> (S < 0 \<longrightarrow> (- S) div 86400 + 1 \<le> D) \<and>
            0 \<le> c \<and> c \<le> 99"
  proof (cases "0 \<le> chms")
    case True
    have e: "S = chms div 100" "c = chms mod 100"
      using True by (simp_all add: S_def c_def sdiv_nonneg smod_nonneg)
    have "0 \<le> chms div 100" "chms div 100 \<le> 68719476736" using True assms(7) by linarith+
    moreover have "0 \<le> chms mod 100" "chms mod 100 \<le> 99"
      using pos_mod_bound [of 100 chms] by simp_all
    ultimately show ?thesis unfolding e by simp
  next
    case False
    then have dv: "100 dvd chms" and bo: "(- chms) div 100 div 86400 + 1 \<le> D"
      using assms(8) by (simp_all add: D_def)
    from dv obtain k where k: "chms = 100 * k" by (auto simp add: dvd_def)
    have kn: "k < 0" using False k by simp
    have kb: "- 68719476736 \<le> k" using assms(6) k by simp
    have e: "S = k" "c = 0" unfolding S_def c_def k by (simp_all add: sdiv_exact_100 smod_exact_100)
    have "(- chms) div 100 = - k" unfolding k by simp
    then have "(- k) div 86400 + 1 \<le> D" using bo by simp
    then show ?thesis unfolding e using kn kb by simp
  qed
  have i: "i8 a = a" "i8 b = b" "i8 c = c" using r sc by (simp_all add: i8_small)
  define FP where "FP = (if c \<noteq> 0 then Second else if b \<noteq> 0 then Day
                         else if a \<noteq> 0 then Month else NoFraction)"
  define F where "F = (if c \<noteq> 0 then c else if b \<noteq> 0 then b else if a \<noteq> 0 then a else 0)"
  have pe: "p64Of fl cym cd chms ng = rippleUp fl True (Period64Of 0 M D 0 0 S F FP ng [])"
    unfolding p64Of_plain d m S_def [symmetric] c_def [symmetric] i F_def FP_def by (rule refl)
  have F0: "0 \<le> F" "F \<le> 99" using r sc by (simp_all add: F_def)
  show "within 36028797018963968 (p64Of fl cym cd chms ng)"
    unfolding pe using assms(1) q sc by (intro rippleUp_raw_within) simp_all
  show "0 \<le> fraction64 (p64Of fl cym cd chms ng)"
    unfolding pe rippleUp_keeps using F0 by simp
  show "fraction64 (p64Of fl cym cd chms ng) \<le> 99"
    unfolding pe rippleUp_keeps using F0 by simp
qed

lemma centiDays_bound:
  assumes "valid_Period a"
  shows "\<bar>centiDays a\<bar> \<le> 33554432"
proof -
  have b: "- 32767 \<le> days a" "days a \<le> 32767" "- 99 \<le> fraction a" "fraction a \<le> 99"
    using assms by (simp_all add: valid_Period_def field_ok_def)
  show ?thesis using b by (cases "fpart a") (simp_all add: centiDays_def)
qed

lemma nonTrivialAdd_sign_invariant:
  assumes "valid_Period a" and "valid_Period b" and "collapse_ok fl"
    and "group_sums_settle a b"
  shows "sign_invariant (nonTrivialAdd fl a b)"
proof -
  define ym where "ym = centiYM a + centiYM b"
  define d where "d = centiDays a + centiDays b"
  define s where "s = centiHMS a + centiHMS b"
  have ba: "\<bar>centiYM a\<bar> \<le> 34359738368" "\<bar>centiHMS a\<bar> \<le> 34359738368"
    using centi_bounds [OF assms(1)] by simp_all
  have bb: "\<bar>centiYM b\<bar> \<le> 34359738368" "\<bar>centiHMS b\<bar> \<le> 34359738368"
    using centi_bounds [OF assms(2)] by simp_all
  have r: "\<bar>ym\<bar> \<le> 68719476736" "\<bar>d\<bar> \<le> 67108864" "\<bar>s\<bar> \<le> 68719476736"
    using ba bb centiDays_bound [OF assms(1)] centiDays_bound [OF assms(2)]
    unfolding ym_def d_def s_def by linarith+
  have e: "i64 ym = ym" "i64 d = d" "i64 s = s" using r by (simp_all add: i64_id)
  have en: "i64 (- ym) = - ym" "i64 (- d) = - d" "i64 (- s) = - s"
    using r by (simp_all add: i64_id)
  have g: "(0 \<le> ym \<and> 0 \<le> d \<and> 0 \<le> s) \<or> (ym \<le> 0 \<and> d \<le> 0 \<and> s \<le> 0) \<or>
           (ym \<le> 0 \<and> d \<le> 0 \<and> 0 < s \<and> 100 dvd s \<and> s div 100 div 86400 + 1 \<le> (- d) div 100)"
    using assms(4) unfolding group_sums_settle_def ym_def d_def s_def .
  define q where "q = nonTrivialAdd64 fl a b"
  have w: "within 36028797018963968 q \<and> 0 \<le> fraction64 q \<and> fraction64 q \<le> 99"
  proof (cases "0 \<le> ym \<and> 0 \<le> d \<and> 0 \<le> s")
    case True
    have eq: "q = p64Of fl ym d s False"
      unfolding q_def nonTrivialAdd64_def Let_def ym_def [symmetric] d_def [symmetric]
        s_def [symmetric] e using True by simp
    have u: "ym \<le> 1099511627776" "d \<le> 67108864" "- 68719476736 \<le> s" "s \<le> 68719476736"
      using r by linarith+
    have nb: "s < 0 \<longrightarrow> 100 dvd s \<and> (- s) div 100 div 86400 + 1 \<le> d div 100"
      using True by simp
    show ?thesis
      unfolding eq using assms(3) True u nb by (intro conjI p64Of_within) simp_all
  next
    case False
    have eq: "q = p64Of fl (- ym) (- d) (- s) True"
      unfolding q_def nonTrivialAdd64_def Let_def ym_def [symmetric] d_def [symmetric]
        s_def [symmetric] e using False by (simp only: if_False en)
    have np: "ym \<le> 0" "d \<le> 0" using g False by auto
    have l: "0 \<le> - ym" "0 \<le> - d" using np by simp_all
    have u: "- ym \<le> 1099511627776" "- d \<le> 67108864" "- 68719476736 \<le> - s"
      "- s \<le> 68719476736"
      using r by linarith+
    have nb: "- s < 0 \<longrightarrow> 100 dvd (- s) \<and> (- (- s)) div 100 div 86400 + 1 \<le> (- d) div 100"
      using g False by auto
    show ?thesis
      unfolding eq using assms(3) l u nb by (intro conjI p64Of_within) simp_all
  qed
  show ?thesis
    unfolding nonTrivialAdd_def q_def [symmetric]
    using w by (intro toPeriod_sign_invariant [of 36028797018963968]) simp_all
qed

subsection \<open>The fast path\<close>

lemma simpleAdd_carried:
  "years (simpleAdd a b) = i16 (years a + years b + carried Year a b)"
  "months (simpleAdd a b) = i16 (months a + months b + carried Month a b)"
  "days (simpleAdd a b) = i16 (days a + days b + carried Day a b)"
  "hours (simpleAdd a b) = i16 (hours a + hours b + carried Hour a b)"
  "minutes (simpleAdd a b) = i16 (minutes a + minutes b + carried Minute a b)"
  "seconds (simpleAdd a b) = i16 (seconds a + seconds b + carried Second a b)"
  unfolding carried_def by (rule simpleAdd_fields)+

lemma carried_cases: "carried fp a b = 0 \<or> carried fp a b = Sign a"
  by (simp add: carried_def)

lemma simpleAdd_nonneg:
  assumes "valid_Period a" and "valid_Period b" and "add_fits a b"
    and "nonneg_Period a" and "nonneg_Period b" and "Sign a = 0 \<or> Sign a = 1"
  shows "nonneg_Period (simpleAdd a b)"
proof -
  have a0: "0 \<le> years a" "0 \<le> months a" "0 \<le> days a" "0 \<le> hours a" "0 \<le> minutes a"
    "0 \<le> seconds a" "0 \<le> fraction a" "fraction a \<le> 99"
    using assms(1,4) by (simp_all add: nonneg_Period_def valid_Period_def)
  have b0: "0 \<le> years b" "0 \<le> months b" "0 \<le> days b" "0 \<le> hours b" "0 \<le> minutes b"
    "0 \<le> seconds b" "0 \<le> fraction b" "fraction b \<le> 99"
    using assms(2,5) by (simp_all add: nonneg_Period_def valid_Period_def)
  have f: "in_int16 (years a + years b + carried Year a b)"
    "in_int16 (months a + months b + carried Month a b)"
    "in_int16 (days a + days b + carried Day a b)"
    "in_int16 (hours a + hours b + carried Hour a b)"
    "in_int16 (minutes a + minutes b + carried Minute a b)"
    "in_int16 (seconds a + seconds b + carried Second a b)"
    using assms(3) by (simp_all add: add_fits_def)
  have field: "0 \<le> i16 (x + y + carried fp a b)"
    if "0 \<le> x" "0 \<le> y" "in_int16 (x + y + carried fp a b)" for x y fp
  proof -
    have "0 \<le> carried fp a b" using carried_cases [of fp a b] assms(6) by auto
    then have "0 \<le> x + y + carried fp a b" using that(1,2) by simp
    moreover have "x + y + carried fp a b \<le> 32767" using that(3) by (simp add: in_int16_def)
    ultimately show ?thesis by (simp add: i16_small)
  qed
  have m: "0 \<le> (fraction a + fraction b) smod 100" "(fraction a + fraction b) smod 100 \<le> 99"
    using smod_100_nonneg [of "fraction a + fraction b"] a0 b0 by simp_all
  have fr: "0 \<le> fraction (simpleAdd a b)"
    unfolding simpleAdd_fields using a0 b0 m by (simp add: i8_small)
  show ?thesis
    unfolding nonneg_Period_def simpleAdd_carried
    using field a0 b0 f fr by simp
qed

lemma simpleAdd_nonpos:
  assumes "valid_Period a" and "valid_Period b" and "add_fits a b"
    and "nonpos_Period a" and "nonpos_Period b" and "Sign a = 0 \<or> Sign a = - 1"
  shows "nonpos_Period (simpleAdd a b)"
proof -
  have a0: "years a \<le> 0" "months a \<le> 0" "days a \<le> 0" "hours a \<le> 0" "minutes a \<le> 0"
    "seconds a \<le> 0" "fraction a \<le> 0" "- 99 \<le> fraction a"
    using assms(1,4) by (simp_all add: nonpos_Period_def valid_Period_def)
  have b0: "years b \<le> 0" "months b \<le> 0" "days b \<le> 0" "hours b \<le> 0" "minutes b \<le> 0"
    "seconds b \<le> 0" "fraction b \<le> 0" "- 99 \<le> fraction b"
    using assms(2,5) by (simp_all add: nonpos_Period_def valid_Period_def)
  have f: "in_int16 (years a + years b + carried Year a b)"
    "in_int16 (months a + months b + carried Month a b)"
    "in_int16 (days a + days b + carried Day a b)"
    "in_int16 (hours a + hours b + carried Hour a b)"
    "in_int16 (minutes a + minutes b + carried Minute a b)"
    "in_int16 (seconds a + seconds b + carried Second a b)"
    using assms(3) by (simp_all add: add_fits_def)
  have field: "i16 (x + y + carried fp a b) \<le> 0"
    if "x \<le> 0" "y \<le> 0" "in_int16 (x + y + carried fp a b)" for x y fp
  proof -
    have "carried fp a b \<le> 0" using carried_cases [of fp a b] assms(6) by auto
    then have "x + y + carried fp a b \<le> 0" using that(1,2) by simp
    moreover have "- 32768 \<le> x + y + carried fp a b" using that(3) by (simp add: in_int16_def)
    ultimately show ?thesis by (simp add: i16_small)
  qed
  have m: "- 99 \<le> (fraction a + fraction b) smod 100" "(fraction a + fraction b) smod 100 \<le> 0"
    using smod_100_nonpos [of "fraction a + fraction b"] a0 b0 by simp_all
  have fr: "fraction (simpleAdd a b) \<le> 0"
    unfolding simpleAdd_fields using a0 b0 m by (simp add: i8_small)
  show ?thesis
    unfolding nonpos_Period_def simpleAdd_carried
    using field a0 b0 f fr by simp
qed

lemma simpleAdd_sign_invariant:
  assumes "valid_Period a" and "valid_Period b" and "Sign a = Sign b" and "add_fits a b"
  shows "sign_invariant (simpleAdd a b)"
proof (cases "IsNegative a")
  case True
  then have sa: "Sign a = - 1" by (auto simp add: Sign_def IsNegative_def IsZero_def)
  then have "IsNegative b" using assms(3) by (auto simp add: Sign_def split: if_splits)
  then have "nonpos_Period b"
    using assms(2)
    by (auto simp add: valid_Period_def sign_invariant_def nonneg_Period_def
        nonpos_Period_def IsNegative_def)
  moreover have "nonpos_Period a"
    using assms(1) True
    by (auto simp add: valid_Period_def sign_invariant_def nonneg_Period_def
        nonpos_Period_def IsNegative_def)
  ultimately have "nonpos_Period (simpleAdd a b)"
    using assms(1,2,4) sa by (intro simpleAdd_nonpos) simp_all
  then show ?thesis by (simp add: sign_invariant_def)
next
  case False
  then have sa: "Sign a = 0 \<or> Sign a = 1" by (simp add: Sign_def)
  have na: "nonneg_Period a"
    using False by (auto simp add: nonneg_Period_def IsNegative_def)
  have "\<not> IsNegative b"
  proof
    assume "IsNegative b"
    then have "Sign b = - 1" by (auto simp add: Sign_def IsNegative_def IsZero_def)
    then show False using sa assms(3) by simp
  qed
  then have "nonneg_Period b" by (auto simp add: nonneg_Period_def IsNegative_def)
  then have "nonneg_Period (simpleAdd a b)"
    using assms(1,2,4) sa na by (intro simpleAdd_nonneg) simp_all
  then show ?thesis by (simp add: sign_invariant_def)
qed

text \<open>
  C1, as amended. For valid Periods \<open>a\<close> and \<open>b\<close>, the result of \<open>Add\<close> satisfies the sign
  invariant on the fast path when no field-wise \<open>int16\<close> sum wraps, and on the general
  path when the three group sums settle into one sign: all non-negative, all
  non-positive, or a positive whole number of seconds beside non-positive year-month
  and day sums that hold enough whole days for the borrow. The floating-point stage of
  \<open>rippleUp\<close> is any function that turns up to \<open>2^31 - 1\<close> hours into four non-negative
  31-bit numbers.
\<close>

theorem Add_keeps_sign_invariant:
  assumes "valid_Period a" and "valid_Period b" and "collapse_ok fl"
    and "(fpart a = fpart b \<or> fpart a = NoFraction \<or> fpart b = NoFraction) \<and> Sign a = Sign b
         \<longrightarrow> add_fits a b"
    and "\<not> ((fpart a = fpart b \<or> fpart a = NoFraction \<or> fpart b = NoFraction) \<and>
             Sign a = Sign b)
         \<longrightarrow> group_sums_settle a b"
  shows "sign_invariant (Add fl a b)"
proof (cases "(fpart a = fpart b \<or> fpart a = NoFraction \<or> fpart b = NoFraction) \<and> Sign a = Sign b")
  case True
  then have "Add fl a b = simpleAdd a b" by (simp add: Add_def)
  moreover have "sign_invariant (simpleAdd a b)"
    using assms(1,2,4) True by (intro simpleAdd_sign_invariant) simp_all
  ultimately show ?thesis by simp
next
  case False
  then have "Add fl a b = nonTrivialAdd fl a b" unfolding Add_def by (simp only: if_False)
  moreover have "sign_invariant (nonTrivialAdd fl a b)"
    using assms(1,2,3,5) False by (intro nonTrivialAdd_sign_invariant) simp_all
  ultimately show ?thesis by simp
qed

text \<open>
  With the exact collapse: 32767 years plus 1 day on the fast path; -2 days plus 1 hour,
  where the borrow of \<open>rippleUp\<close> gives -1 day and -23 hours; and 32767.50 days plus
  1 day and 0.50 hour, whose 32768 days enter the day-to-month stage with 786432 hours.
\<close>

theorem Add_keeps_sign_invariant_witness:
  "valid_Period (PeriodOf 32767 0 0 0 0 0 0 NoFraction) \<and>
   valid_Period (PeriodOf 0 0 1 0 0 0 0 NoFraction) \<and>
   valid_Period (PeriodOf 0 0 (- 2) 0 0 0 0 NoFraction) \<and>
   valid_Period (PeriodOf 0 0 0 1 0 0 0 NoFraction) \<and>
   valid_Period (PeriodOf 0 0 32767 0 0 0 50 Day) \<and>
   valid_Period (PeriodOf 0 0 1 0 0 0 50 Hour) \<and>
   collapse_ok collapse_exact \<and>
   add_fits (PeriodOf 32767 0 0 0 0 0 0 NoFraction) (PeriodOf 0 0 1 0 0 0 0 NoFraction) \<and>
   group_sums_settle (PeriodOf 0 0 (- 2) 0 0 0 0 NoFraction)
     (PeriodOf 0 0 0 1 0 0 0 NoFraction) \<and>
   group_sums_settle (PeriodOf 0 0 32767 0 0 0 50 Day) (PeriodOf 0 0 1 0 0 0 50 Hour) \<and>
   Add collapse_exact (PeriodOf 32767 0 0 0 0 0 0 NoFraction)
     (PeriodOf 0 0 1 0 0 0 0 NoFraction) = PeriodOf 32767 0 1 0 0 0 0 NoFraction \<and>
   sign_invariant (Add collapse_exact (PeriodOf 32767 0 0 0 0 0 0 NoFraction)
     (PeriodOf 0 0 1 0 0 0 0 NoFraction)) \<and>
   Add collapse_exact (PeriodOf 0 0 (- 2) 0 0 0 0 NoFraction)
     (PeriodOf 0 0 0 1 0 0 0 NoFraction) = PeriodOf 0 0 (- 1) (- 23) 0 0 0 NoFraction \<and>
   sign_invariant (Add collapse_exact (PeriodOf 0 0 (- 2) 0 0 0 0 NoFraction)
     (PeriodOf 0 0 0 1 0 0 0 NoFraction)) \<and>
   Add collapse_exact (PeriodOf 0 0 32767 0 0 0 50 Day) (PeriodOf 0 0 1 0 0 0 50 Hour) =
     PeriodOf 89 8 17 22 38 0 50 Day \<and>
   sign_invariant
     (Add collapse_exact (PeriodOf 0 0 32767 0 0 0 50 Day) (PeriodOf 0 0 1 0 0 0 50 Hour))"
proof -
  have v1: "valid_Period (PeriodOf 32767 0 0 0 0 0 0 NoFraction)" by code_simp
  have v2: "valid_Period (PeriodOf 0 0 1 0 0 0 0 NoFraction)" by code_simp
  have v3: "valid_Period (PeriodOf 0 0 (- 2) 0 0 0 0 NoFraction)" by code_simp
  have v4: "valid_Period (PeriodOf 0 0 0 1 0 0 0 NoFraction)" by code_simp
  have v5: "valid_Period (PeriodOf 0 0 32767 0 0 0 50 Day)" by code_simp
  have v6: "valid_Period (PeriodOf 0 0 1 0 0 0 50 Hour)" by code_simp
  have c: "collapse_ok collapse_exact" by (rule collapse_exact_ok)
  have f: "add_fits (PeriodOf 32767 0 0 0 0 0 0 NoFraction) (PeriodOf 0 0 1 0 0 0 0 NoFraction)"
    by code_simp
  have s1: "Sign (PeriodOf 32767 0 0 0 0 0 0 NoFraction)
              = Sign (PeriodOf 0 0 1 0 0 0 0 NoFraction)"
    by code_simp
  have g2: "group_sums_settle (PeriodOf 0 0 (- 2) 0 0 0 0 NoFraction)
              (PeriodOf 0 0 0 1 0 0 0 NoFraction)"
    by code_simp
  have s2: "Sign (PeriodOf 0 0 (- 2) 0 0 0 0 NoFraction)
              \<noteq> Sign (PeriodOf 0 0 0 1 0 0 0 NoFraction)"
    by code_simp
  have g3: "group_sums_settle (PeriodOf 0 0 32767 0 0 0 50 Day) (PeriodOf 0 0 1 0 0 0 50 Hour)"
    by code_simp
  have r1: "Add collapse_exact (PeriodOf 32767 0 0 0 0 0 0 NoFraction)
              (PeriodOf 0 0 1 0 0 0 0 NoFraction) = PeriodOf 32767 0 1 0 0 0 0 NoFraction"
    by code_simp
  have r2: "Add collapse_exact (PeriodOf 0 0 (- 2) 0 0 0 0 NoFraction)
              (PeriodOf 0 0 0 1 0 0 0 NoFraction) = PeriodOf 0 0 (- 1) (- 23) 0 0 0 NoFraction"
    by code_simp
  have r3: "Add collapse_exact (PeriodOf 0 0 32767 0 0 0 50 Day)
              (PeriodOf 0 0 1 0 0 0 50 Hour) = PeriodOf 89 8 17 22 38 0 50 Day"
    by code_simp
  have i1: "sign_invariant (Add collapse_exact (PeriodOf 32767 0 0 0 0 0 0 NoFraction)
              (PeriodOf 0 0 1 0 0 0 0 NoFraction))"
    using f s1 by (intro Add_keeps_sign_invariant [OF v1 v2 c]) simp_all
  have i2: "sign_invariant (Add collapse_exact (PeriodOf 0 0 (- 2) 0 0 0 0 NoFraction)
              (PeriodOf 0 0 0 1 0 0 0 NoFraction))"
    using g2 s2 by (intro Add_keeps_sign_invariant [OF v3 v4 c]) simp_all
  have i3: "sign_invariant
              (Add collapse_exact (PeriodOf 0 0 32767 0 0 0 50 Day) (PeriodOf 0 0 1 0 0 0 50 Hour))"
    using g3 by (intro Add_keeps_sign_invariant [OF v5 v6 c]) simp_all
  show ?thesis
    using v1 v2 v3 v4 v5 v6 c f g2 g3 r1 r2 r3 i1 i2 i3 by simp
qed

text \<open>
  C1, as stated, fails. On the fast path the \<open>int16\<close> sum wraps: 20000 years and 1 month
  added to itself is -25536 years and 2 months. On the general path with group sums of
  differing signs: 1 month plus -1 day is 1 month and -1 day, and -2 days plus 1.50
  seconds is -1 day, -23 hours, -59 minutes and -59.50 seconds with the fraction 50
  stored positive.
\<close>

theorem Add_breaks_sign_invariant:
  "valid_Period (PeriodOf 20000 1 0 0 0 0 0 NoFraction) \<and>
   Add collapse_exact (PeriodOf 20000 1 0 0 0 0 0 NoFraction)
     (PeriodOf 20000 1 0 0 0 0 0 NoFraction) = PeriodOf (- 25536) 2 0 0 0 0 0 NoFraction \<and>
   \<not> sign_invariant
       (Add collapse_exact (PeriodOf 20000 1 0 0 0 0 0 NoFraction)
          (PeriodOf 20000 1 0 0 0 0 0 NoFraction)) \<and>
   valid_Period (PeriodOf 0 1 0 0 0 0 0 NoFraction) \<and>
   valid_Period (PeriodOf 0 0 (- 1) 0 0 0 0 NoFraction) \<and>
   Add collapse_exact (PeriodOf 0 1 0 0 0 0 0 NoFraction)
     (PeriodOf 0 0 (- 1) 0 0 0 0 NoFraction) = PeriodOf 0 1 (- 1) 0 0 0 0 NoFraction \<and>
   \<not> sign_invariant
       (Add collapse_exact (PeriodOf 0 1 0 0 0 0 0 NoFraction)
          (PeriodOf 0 0 (- 1) 0 0 0 0 NoFraction)) \<and>
   valid_Period (PeriodOf 0 0 (- 2) 0 0 0 0 NoFraction) \<and>
   valid_Period (PeriodOf 0 0 0 0 0 1 50 Second) \<and>
   Add collapse_exact (PeriodOf 0 0 (- 2) 0 0 0 0 NoFraction)
     (PeriodOf 0 0 0 0 0 1 50 Second) = PeriodOf 0 0 (- 1) (- 23) (- 59) (- 59) 50 Second \<and>
   \<not> sign_invariant
       (Add collapse_exact (PeriodOf 0 0 (- 2) 0 0 0 0 NoFraction)
          (PeriodOf 0 0 0 0 0 1 50 Second))"
  by code_simp

section \<open>Scaling by one\<close>

lemma Negate_valid:
  assumes "valid_Period p"
  shows "Negate p = PeriodOf (- years p) (- months p) (- days p) (- hours p) (- minutes p)
                      (- seconds p) (- fraction p) (fpart p)"
proof -
  have b: "- 32767 \<le> years p" "years p \<le> 32767" "- 32767 \<le> months p" "months p \<le> 32767"
    "- 32767 \<le> days p" "days p \<le> 32767" "- 32767 \<le> hours p" "hours p \<le> 32767"
    "- 32767 \<le> minutes p" "minutes p \<le> 32767" "- 32767 \<le> seconds p" "seconds p \<le> 32767"
    "- 99 \<le> fraction p" "fraction p \<le> 99"
    using assms by (simp_all add: valid_Period_def field_ok_def)
  show ?thesis using b by (simp add: Negate_def i16_small i8_small)
qed

lemma centi_minus:
  "centiYM (PeriodOf (- y) (- mo) (- d) (- h) (- mi) (- s) (- f) fp)
     = - centiYM (PeriodOf y mo d h mi s f fp)"
  "centiDays (PeriodOf (- y) (- mo) (- d) (- h) (- mi) (- s) (- f) fp)
     = - centiDays (PeriodOf y mo d h mi s f fp)"
  "centiHMS (PeriodOf (- y) (- mo) (- d) (- h) (- mi) (- s) (- f) fp)
     = - centiHMS (PeriodOf y mo d h mi s f fp)"
  by (cases fp; simp add: centiYM_def centiDays_def centiHMS_def)+

lemma centi_nonneg:
  assumes "nonneg_Period p"
  shows "0 \<le> centiYM p" and "0 \<le> centiDays p" and "0 \<le> centiHMS p"
proof -
  have b: "0 \<le> years p" "0 \<le> months p" "0 \<le> days p" "0 \<le> hours p" "0 \<le> minutes p"
    "0 \<le> seconds p" "0 \<le> fraction p"
    using assms by (simp_all add: nonneg_Period_def)
  show "0 \<le> centiYM p" using b by (cases "fpart p") (simp_all add: centiYM_def)
  show "0 \<le> centiDays p" using b by (cases "fpart p") (simp_all add: centiDays_def)
  show "0 \<le> centiHMS p" using b by (cases "fpart p") (simp_all add: centiHMS_def)
qed

lemma centi_nonpos:
  assumes "nonpos_Period p"
  shows "centiYM p \<le> 0" and "centiDays p \<le> 0" and "centiHMS p \<le> 0"
proof -
  have b: "years p \<le> 0" "months p \<le> 0" "days p \<le> 0" "hours p \<le> 0" "minutes p \<le> 0"
    "seconds p \<le> 0" "fraction p \<le> 0"
    using assms by (simp_all add: nonpos_Period_def)
  have m: "x * 12 + y \<le> 0" if "x \<le> 0" "y \<le> 0" for x y :: int using that by simp
  have n: "x * 3600 + y * 60 + z \<le> 0" if "x \<le> 0" "y \<le> 0" "z \<le> 0" for x y z :: int
    using that by simp
  have k: "x * 100 + y \<le> 0" if "x \<le> 0" "y \<le> 0" for x y :: int using that by simp
  have ym: "years p * 12 + months p \<le> 0" using b by (intro m)
  have hms: "hours p * 3600 + minutes p * 60 + seconds p \<le> 0" using b by (intro n)
  show "centiYM p \<le> 0"
    unfolding centiYM_def using b by (intro k ym) (cases "fpart p"; simp)
  show "centiDays p \<le> 0"
    unfolding centiDays_def using b by (intro k) (cases "fpart p"; simp)+
  show "centiHMS p \<le> 0"
    unfolding centiHMS_def using b by (intro k hms) (cases "fpart p"; simp)
qed

lemma absNeg_centi_neg:
  assumes "valid_Period p" and "IsNegative p"
  shows "centiYM (fst (absNeg p)) = \<bar>centiYM p\<bar>"
    and "centiDays (fst (absNeg p)) = \<bar>centiDays p\<bar>"
    and "centiHMS (fst (absNeg p)) = \<bar>centiHMS p\<bar>"
proof -
  have np: "nonpos_Period p"
    using assms
    by (auto simp add: valid_Period_def sign_invariant_def nonneg_Period_def
        nonpos_Period_def IsNegative_def)
  have e: "fst (absNeg p) = PeriodOf (- years p) (- months p) (- days p) (- hours p)
                              (- minutes p) (- seconds p) (- fraction p) (fpart p)"
    using assms(2) by (simp add: absNeg_def Negate_valid [OF assms(1)])
  have s: "PeriodOf (years p) (months p) (days p) (hours p) (minutes p) (seconds p)
             (fraction p) (fpart p) = p" by simp
  show "centiYM (fst (absNeg p)) = \<bar>centiYM p\<bar>"
    unfolding e centi_minus s using centi_nonpos(1) [OF np] by simp
  show "centiDays (fst (absNeg p)) = \<bar>centiDays p\<bar>"
    unfolding e centi_minus s using centi_nonpos(2) [OF np] by simp
  show "centiHMS (fst (absNeg p)) = \<bar>centiHMS p\<bar>"
    unfolding e centi_minus s using centi_nonpos(3) [OF np] by simp
qed

lemma absNeg_centi_pos:
  assumes "\<not> IsNegative p"
  shows "centiYM (fst (absNeg p)) = \<bar>centiYM p\<bar>"
    and "centiDays (fst (absNeg p)) = \<bar>centiDays p\<bar>"
    and "centiHMS (fst (absNeg p)) = \<bar>centiHMS p\<bar>"
proof -
  have nn: "nonneg_Period p" using assms by (auto simp add: nonneg_Period_def IsNegative_def)
  have e: "fst (absNeg p) = p" using assms by (simp add: absNeg_def)
  show "centiYM (fst (absNeg p)) = \<bar>centiYM p\<bar>"
    unfolding e using centi_nonneg(1) [OF nn] by simp
  show "centiDays (fst (absNeg p)) = \<bar>centiDays p\<bar>"
    unfolding e using centi_nonneg(2) [OF nn] by simp
  show "centiHMS (fst (absNeg p)) = \<bar>centiHMS p\<bar>"
    unfolding e using centi_nonneg(3) [OF nn] by simp
qed

lemma absNeg_centi:
  assumes "valid_Period p"
  shows "snd (absNeg p) = IsNegative p"
    and "centiYM (fst (absNeg p)) = \<bar>centiYM p\<bar>"
    and "centiDays (fst (absNeg p)) = \<bar>centiDays p\<bar>"
    and "centiHMS (fst (absNeg p)) = \<bar>centiHMS p\<bar>"
  using assms absNeg_centi_neg [of p] absNeg_centi_pos [of p]
  by (auto simp add: absNeg_def)

lemma single_fraction:
  "(100 dvd centiDays p \<and> 100 dvd centiHMS p) \<or> (100 dvd centiYM p \<and> 100 dvd centiHMS p) \<or>
   (100 dvd centiYM p \<and> 100 dvd centiDays p)"
  by (cases "fpart p") (simp_all add: centiYM_def centiDays_def centiHMS_def)

lemma RationalScale_one:
  assumes "valid_Period p"
  shows "RationalScale fl newOf finish p 1 1 =
           Returned (toPeriod (p64Of fl \<bar>centiYM p\<bar> \<bar>centiDays p\<bar> \<bar>centiHMS p\<bar>
                                 (IsNegative p)))"
proof -
  obtain ap ng where an: "absNeg p = (ap, ng)" by (cases "absNeg p")
  have c: "ng = IsNegative p" "centiYM ap = \<bar>centiYM p\<bar>" "centiDays ap = \<bar>centiDays p\<bar>"
    "centiHMS ap = \<bar>centiHMS p\<bar>"
    using absNeg_centi [OF assms] by (simp_all add: an)
  have b: "\<bar>centiYM p\<bar> \<le> 34359738368" "\<bar>centiDays p\<bar> \<le> 34359738368"
    "\<bar>centiHMS p\<bar> \<le> 34359738368"
    using centi_bounds [OF assms] by simp_all
  have i: "i64 \<bar>centiYM p\<bar> = \<bar>centiYM p\<bar>" "i64 \<bar>centiDays p\<bar> = \<bar>centiDays p\<bar>"
    "i64 \<bar>centiHMS p\<bar> = \<bar>centiHMS p\<bar>"
    using b by (simp_all add: i64_id)
  have m: "x smod 1 = 0" for x :: int by (simp add: signed_modulo_int_def)
  show ?thesis
    by (simp add: RationalScale_def rationalScale64_def an c i m Let_def)
qed

lemma toPeriod_success:
  assumes "within n q" and "0 \<le> fraction64 q" and "fraction64 q \<le> 99"
    and "toPeriod q = (r, None)"
  shows "r = (if neg q
              then PeriodOf (- years64 q) (- months64 q) (- days64 q) (- hours64 q)
                     (- minutes64 q) (- seconds64 q) (- fraction64 q) (fpart64 q)
              else PeriodOf (years64 q) (months64 q) (days64 q) (hours64 q)
                     (minutes64 q) (seconds64 q) (fraction64 q) (fpart64 q))"
proof -
  have ov: "overflowing q = []"
    using assms(4) by (auto simp add: toPeriod_def Let_def split: if_splits)
  have b: "0 \<le> years64 q" "0 \<le> months64 q" "0 \<le> days64 q" "0 \<le> hours64 q"
    "0 \<le> minutes64 q" "0 \<le> seconds64 q"
    using assms(1) by (simp_all add: within_def)
  have u: "years64 q \<le> 32767" "months64 q \<le> 32767" "days64 q \<le> 32767"
    "hours64 q \<le> 32767" "minutes64 q \<le> 32767" "seconds64 q \<le> 32767"
    using ov by (simp_all add: overflowing_def MaxInt16_def split: if_splits)
  have pos: "i16 (years64 q) = years64 q" "i16 (months64 q) = months64 q"
    "i16 (days64 q) = days64 q" "i16 (hours64 q) = hours64 q"
    "i16 (minutes64 q) = minutes64 q" "i16 (seconds64 q) = seconds64 q"
    using b u by (simp_all add: i16_small)
  have n64: "i64 (- years64 q) = - years64 q" "i64 (- months64 q) = - months64 q"
    "i64 (- days64 q) = - days64 q" "i64 (- hours64 q) = - hours64 q"
    "i64 (- minutes64 q) = - minutes64 q" "i64 (- seconds64 q) = - seconds64 q"
    using b u by (simp_all add: i64_id)
  have n16: "i16 (- years64 q) = - years64 q" "i16 (- months64 q) = - months64 q"
    "i16 (- days64 q) = - days64 q" "i16 (- hours64 q) = - hours64 q"
    "i16 (- minutes64 q) = - minutes64 q" "i16 (- seconds64 q) = - seconds64 q"
    using b u by (simp_all add: i16_small)
  have n8: "i8 (- fraction64 q) = - fraction64 q" using assms(2,3) by (simp add: i8_small)
  have "toPeriod q =
          (if neg q
           then (PeriodOf (- years64 q) (- months64 q) (- days64 q) (- hours64 q)
                   (- minutes64 q) (- seconds64 q) (- fraction64 q) (fpart64 q), None)
           else (PeriodOf (years64 q) (months64 q) (days64 q) (hours64 q)
                   (minutes64 q) (seconds64 q) (fraction64 q) (fpart64 q), None))"
    unfolding toPeriod_def Let_def ov pos n64 n16 n8 by simp
  then show ?thesis using assms(4) by (simp split: if_splits)
qed

lemma remainder_parts:
  assumes "(b = 0 \<and> c = 0) \<or> (a = 0 \<and> c = 0) \<or> (a = 0 \<and> b = (0::int))"
    and "FP = (if c \<noteq> 0 then Second else if b \<noteq> 0 then Day
               else if a \<noteq> 0 then Month else NoFraction)"
    and "F = (if c \<noteq> 0 then c else if b \<noteq> 0 then b else if a \<noteq> 0 then a else 0)"
  shows "centiYM (PeriodOf y mo d h mi s F FP) = (y * 12 + mo) * 100 + a"
    and "centiDays (PeriodOf y mo d h mi s F FP) = d * 100 + b"
    and "centiHMS (PeriodOf y mo d h mi s F FP) = (h * 3600 + mi * 60 + s) * 100 + c"
  using assms by (auto simp add: centiYM_def centiDays_def centiHMS_def)

lemma group_totals:
  assumes "12 * y + mo = M" and "100 * M + a = cym"
  shows "(y * 12 + mo) * 100 + a = (cym::int)"
  using assms by simp

lemma elapsed_totals:
  assumes "86400 * d + 3600 * h + 60 * mi + s = 86400 * D + S"
    and "100 * D + b = cd" and "100 * S + c = chms"
  shows "86400 * (d * 100 + b) + ((h * 3600 + mi * 60 + s) * 100 + c)
           = 86400 * cd + (chms::int)"
  using assms by simp

lemma centi_sign:
  assumes "valid_Period p"
  shows "IsNegative p \<Longrightarrow> centiYM p \<le> 0 \<and> centiDays p \<le> 0 \<and> centiHMS p \<le> 0"
    and "\<not> IsNegative p \<Longrightarrow> 0 \<le> centiYM p \<and> 0 \<le> centiDays p \<and> 0 \<le> centiHMS p"
proof -
  assume "IsNegative p"
  then have "nonpos_Period p"
    using assms
    by (auto simp add: valid_Period_def sign_invariant_def nonneg_Period_def
        nonpos_Period_def IsNegative_def)
  then show "centiYM p \<le> 0 \<and> centiDays p \<le> 0 \<and> centiHMS p \<le> 0"
    by (simp add: centi_nonpos)
next
  assume "\<not> IsNegative p"
  then have "nonneg_Period p" by (auto simp add: nonneg_Period_def IsNegative_def)
  then show "0 \<le> centiYM p \<and> 0 \<le> centiDays p \<and> 0 \<le> centiHMS p"
    by (simp add: centi_nonneg)
qed

lemma scale_one_totals:
  assumes v: "valid_Period p"
    and t: "toPeriod (p64Of fl \<bar>centiYM p\<bar> \<bar>centiDays p\<bar> \<bar>centiHMS p\<bar> (IsNegative p))
              = (r, None)"
    and f: "day_collapse_free p"
  shows "centiYM r = centiYM p"
    and "86400 * centiDays r + centiHMS r = 86400 * centiDays p + centiHMS p"
proof -
  define cym where "cym = \<bar>centiYM p\<bar>"
  define cd where "cd = \<bar>centiDays p\<bar>"
  define chms where "chms = \<bar>centiHMS p\<bar>"
  define ng where "ng = IsNegative p"
  define M where "M = cym div 100"
  define D where "D = cd div 100"
  define S where "S = chms div 100"
  define a where "a = cym mod 100"
  define b where "b = cd mod 100"
  define c where "c = chms mod 100"
  define FP where "FP = (if c \<noteq> 0 then Second else if b \<noteq> 0 then Day
                         else if a \<noteq> 0 then Month else NoFraction)"
  define F where "F = (if c \<noteq> 0 then c else if b \<noteq> 0 then b else if a \<noteq> 0 then a else 0)"
  have n0: "0 \<le> cym" "0 \<le> cd" "0 \<le> chms" by (simp_all add: cym_def cd_def chms_def)
  have n1: "cym \<le> 1099511627776" "cd \<le> 1099511627776" "chms \<le> 1099511627776"
    using centi_bounds [OF v] by (simp_all add: cym_def cd_def chms_def)
  have q0: "0 \<le> M" "0 \<le> D" "0 \<le> S" using n0 by (simp_all add: M_def D_def S_def)
  have q1: "M \<le> 1099511627776" "D \<le> 1099511627776" "S \<le> 1099511627776"
    using n0 n1 unfolding M_def D_def S_def by linarith+
  have r0: "0 \<le> a" "0 \<le> b" "0 \<le> c" by (simp_all add: a_def b_def c_def)
  have r1: "a \<le> 99" "b \<le> 99" "c \<le> 99"
    using pos_mod_bound [of 100 cym] pos_mod_bound [of 100 cd] pos_mod_bound [of 100 chms]
    by (simp_all add: a_def b_def c_def)
  have F0: "0 \<le> F" "F \<le> 99" using r0 r1 by (simp_all add: F_def)
  have sd: "cym sdiv 100 = M" "cd sdiv 100 = D" "chms sdiv 100 = S"
    using n0 by (simp_all add: sdiv_nonneg M_def D_def S_def)
  have sm: "cym smod 100 = a" "cd smod 100 = b" "chms smod 100 = c"
    using n0 by (simp_all add: smod_nonneg a_def b_def c_def)
  have i8r: "i8 a = a" "i8 b = b" "i8 c = c" using r0 r1 by (simp_all add: i8_small)
  define q where "q = p64Of fl cym cd chms ng"
  have qe: "q = rippleUp fl True (Period64Of 0 M D 0 0 S F FP ng [])"
    unfolding q_def p64Of_plain sd sm i8r F_def FP_def by (rule refl)
  have f7: "(if S div 3600 > 32767 then D + S div 3600 div 24 else D) \<le> 32767"
    using f unfolding day_collapse_free_def S_def D_def chms_def cd_def .
  have ym: "12 * years64 q + months64 q = M"
    unfolding qe using q0(1) q1(1) q0(2) q1(2) q0(3) q1(3) f7 by (rule rippleUp_totals(1))
  have el: "86400 * days64 q + 3600 * hours64 q + 60 * minutes64 q + seconds64 q
              = 86400 * D + S"
    unfolding qe using q0(1) q1(1) q0(2) q1(2) q0(3) q1(3) f7 by (rule rippleUp_totals(2))
  have w: "within 36028797018963968 q"
    unfolding qe using q0(1) q1(1) q0(2) q1(2) q0(3) q1(3) f7 by (rule rippleUp_totals(3))
  have k: "fraction64 q = F" "fpart64 q = FP" "neg q = ng"
    unfolding qe rippleUp_keeps by simp_all
  have tq: "toPeriod q = (r, None)" using t unfolding q_def cym_def cd_def chms_def ng_def .
  have kf: "0 \<le> fraction64 q" "fraction64 q \<le> 99" using F0 by (simp_all add: k)
  define u where "u = PeriodOf (years64 q) (months64 q) (days64 q) (hours64 q) (minutes64 q)
                        (seconds64 q) F FP"
  have re: "r = (if ng
                 then PeriodOf (- years64 q) (- months64 q) (- days64 q) (- hours64 q)
                        (- minutes64 q) (- seconds64 q) (- F) FP
                 else u)"
    using toPeriod_success [OF w kf tq] unfolding k u_def .
  have sf: "(b = 0 \<and> c = 0) \<or> (a = 0 \<and> c = 0) \<or> (a = 0 \<and> b = 0)"
    using single_fraction [of p]
    by (simp add: a_def b_def c_def cym_def cd_def chms_def mod_eq_0_iff_dvd)
  have da: "100 * M + a = cym" unfolding M_def a_def by simp
  have db: "100 * D + b = cd" unfolding D_def b_def by simp
  have dc: "100 * S + c = chms" unfolding S_def c_def by simp
  have uy: "centiYM u = cym"
    unfolding u_def remainder_parts(1) [OF sf FP_def F_def] using ym da by (rule group_totals)
  have ue: "86400 * centiDays u + centiHMS u = 86400 * cd + chms"
    unfolding u_def remainder_parts(2,3) [OF sf FP_def F_def] using el db dc
    by (rule elapsed_totals)
  show "centiYM r = centiYM p"
  proof (cases ng)
    case True
    then have "centiYM r = - centiYM u" unfolding re u_def by (simp add: centi_minus)
    moreover have "centiYM p \<le> 0" using centi_sign(1) [OF v] True by (simp add: ng_def)
    ultimately show ?thesis unfolding uy cym_def by simp
  next
    case False
    then have "centiYM r = centiYM u" unfolding re by simp
    moreover have "0 \<le> centiYM p" using centi_sign(2) [OF v] False by (simp add: ng_def)
    ultimately show ?thesis unfolding uy cym_def by simp
  qed
  show "86400 * centiDays r + centiHMS r = 86400 * centiDays p + centiHMS p"
  proof (cases ng)
    case True
    then have "86400 * centiDays r + centiHMS r = - (86400 * centiDays u + centiHMS u)"
      unfolding re u_def by (simp add: centi_minus)
    moreover have "centiDays p \<le> 0" "centiHMS p \<le> 0"
      using centi_sign(1) [OF v] True by (simp_all add: ng_def)
    ultimately show ?thesis unfolding ue cd_def chms_def by simp
  next
    case False
    then have "86400 * centiDays r + centiHMS r = 86400 * centiDays u + centiHMS u"
      unfolding re by simp
    moreover have "0 \<le> centiDays p" "0 \<le> centiHMS p"
      using centi_sign(2) [OF v] False by (simp_all add: ng_def)
    ultimately show ?thesis unfolding ue cd_def chms_def by simp
  qed
qed

text \<open>
  C7, as amended. For every valid Period \<open>p\<close>, \<open>RationalScale(p, 1, 1)\<close> does not panic
  and takes the exact path: it returns what \<open>toPeriod\<close> makes of \<open>p64Of\<close> applied to the
  magnitudes of the three centi-unit totals of \<open>p\<close> and to its sign. It can fail with the
  overflow error. When it returns no error, and the day count with the folded hours
  stays at or below 32767 (so that the approximate day-to-month stage of \<open>rippleUp\<close> is
  not entered), the returned Period represents the same amount of time as \<open>p\<close>: its
  year-month centi total equals that of \<open>p\<close>, and so does its day total combined with
  its hour-minute-second total, a day counted as 24 hours.
\<close>

theorem RationalScale_by_one:
  assumes "valid_Period p"
  shows "RationalScale fl newOf finish p 1 1 =
           Returned (toPeriod (p64Of fl \<bar>centiYM p\<bar> \<bar>centiDays p\<bar> \<bar>centiHMS p\<bar>
                                 (IsNegative p))) \<and>
         (RationalScale fl newOf finish p 1 1 = Returned (r, None) \<longrightarrow>
          day_collapse_free p \<longrightarrow>
            centiYM r = centiYM p \<and>
            86400 * centiDays r + centiHMS r = 86400 * centiDays p + centiHMS p)"
proof (intro conjI impI)
  show e: "RationalScale fl newOf finish p 1 1 =
           Returned (toPeriod (p64Of fl \<bar>centiYM p\<bar> \<bar>centiDays p\<bar> \<bar>centiHMS p\<bar>
                                 (IsNegative p)))"
    by (rule RationalScale_one [OF assms])
  assume s: "RationalScale fl newOf finish p 1 1 = Returned (r, None)"
    and f: "day_collapse_free p"
  have t: "toPeriod (p64Of fl \<bar>centiYM p\<bar> \<bar>centiDays p\<bar> \<bar>centiHMS p\<bar> (IsNegative p))
             = (r, None)"
    using s unfolding e by simp
  show "centiYM r = centiYM p" using assms t f by (rule scale_one_totals(1))
  show "86400 * centiDays r + centiHMS r = 86400 * centiDays p + centiHMS p"
    using assms t f by (rule scale_one_totals(2))
qed

text \<open>
  Minus 1 year 2 months 3 days 4 hours 5.50 minutes comes back with 5 minutes and
  36 seconds.
\<close>

theorem RationalScale_by_one_witness:
  "valid_Period (PeriodOf (- 1) (- 2) (- 3) (- 4) (- 5) (- 6) (- 50) Minute) \<and>
   day_collapse_free (PeriodOf (- 1) (- 2) (- 3) (- 4) (- 5) (- 6) (- 50) Minute) \<and>
   RationalScale idle newOf_unused finish_unused
     (PeriodOf (- 1) (- 2) (- 3) (- 4) (- 5) (- 6) (- 50) Minute) 1 1 =
     Returned (PeriodOf (- 1) (- 2) (- 3) (- 4) (- 5) (- 36) 0 NoFraction, None) \<and>
   centiYM (PeriodOf (- 1) (- 2) (- 3) (- 4) (- 5) (- 36) 0 NoFraction) =
     centiYM (PeriodOf (- 1) (- 2) (- 3) (- 4) (- 5) (- 6) (- 50) Minute) \<and>
   86400 * centiDays (PeriodOf (- 1) (- 2) (- 3) (- 4) (- 5) (- 36) 0 NoFraction) +
     centiHMS (PeriodOf (- 1) (- 2) (- 3) (- 4) (- 5) (- 36) 0 NoFraction) =
   86400 * centiDays (PeriodOf (- 1) (- 2) (- 3) (- 4) (- 5) (- 6) (- 50) Minute) +
     centiHMS (PeriodOf (- 1) (- 2) (- 3) (- 4) (- 5) (- 6) (- 50) Minute)"
proof -
  have v: "valid_Period (PeriodOf (- 1) (- 2) (- 3) (- 4) (- 5) (- 6) (- 50) Minute)"
    by code_simp
  have f: "day_collapse_free (PeriodOf (- 1) (- 2) (- 3) (- 4) (- 5) (- 6) (- 50) Minute)"
    by code_simp
  have s: "RationalScale idle newOf_unused finish_unused
     (PeriodOf (- 1) (- 2) (- 3) (- 4) (- 5) (- 6) (- 50) Minute) 1 1 =
     Returned (PeriodOf (- 1) (- 2) (- 3) (- 4) (- 5) (- 36) 0 NoFraction, None)"
    by code_simp
  note t = RationalScale_by_one [OF v, of idle newOf_unused finish_unused
      "PeriodOf (- 1) (- 2) (- 3) (- 4) (- 5) (- 36) 0 NoFraction"]
  have c: "centiYM (PeriodOf (- 1) (- 2) (- 3) (- 4) (- 5) (- 36) 0 NoFraction) =
     centiYM (PeriodOf (- 1) (- 2) (- 3) (- 4) (- 5) (- 6) (- 50) Minute) \<and>
   86400 * centiDays (PeriodOf (- 1) (- 2) (- 3) (- 4) (- 5) (- 36) 0 NoFraction) +
     centiHMS (PeriodOf (- 1) (- 2) (- 3) (- 4) (- 5) (- 36) 0 NoFraction) =
   86400 * centiDays (PeriodOf (- 1) (- 2) (- 3) (- 4) (- 5) (- 6) (- 50) Minute) +
     centiHMS (PeriodOf (- 1) (- 2) (- 3) (- 4) (- 5) (- 6) (- 50) Minute)"
    using t s f by blast
  show ?thesis using v f s c by blast
qed

text \<open>
  C7, as stated, fails: 32767 years and 12 months is a valid Period, its months ripple
  into a 32768th year, and \<open>RationalScale(p, 1, 1)\<close> returns the overflow error.
\<close>

theorem RationalScale_by_one_overflows:
  "valid_Period (PeriodOf 32767 12 0 0 0 0 0 NoFraction) \<and>
   RationalScale idle newOf_unused finish_unused
     (PeriodOf 32767 12 0 0 0 0 0 NoFraction) 1 1 =
     Returned (Period0, Some (OverflowError
       (Rendered (Period64Of 32768 0 0 0 0 0 0 NoFraction False [])) [''years'']))"
  by code_simp

section \<open>Overflow in Add and Scale\<close>

lemma toPeriod_overflow_zero:
  "overflowing q \<noteq> [] \<Longrightarrow> fst (toPeriod q) = Period0"
  by (simp add: toPeriod_def Let_def)

lemma toPeriod_overflow_error:
  "overflowing q \<noteq> [] \<Longrightarrow> input q = [] \<Longrightarrow>
   toPeriod q = (Period0, Some (OverflowError (Rendered q) (overflowing q)))"
  by (simp add: toPeriod_def Let_def)

lemma toPeriod_error_overflowing:
  "toPeriod q = (r, Some e) \<Longrightarrow> r = Period0 \<and> overflowing q \<noteq> []"
  by (auto simp add: toPeriod_def Let_def split: if_splits)

lemma p64Of_input: "input (p64Of fl cym cd chms ng) = []"
  unfolding p64Of_plain by (simp add: rippleUp_keeps)

lemma exact64_input: "input (exact64 fl m d p) = []"
  by (simp add: exact64_def p64Of_input)

lemma rationalScale64_exact:
  assumes "d \<noteq> 0" and "divides_exactly m d p"
  shows "rationalScale64 fl newOf finish m d p = Returned (toPeriod (exact64 fl m d p))"
proof -
  obtain ap ng where an: "absNeg p = (ap, ng)" by (cases "absNeg p")
  have e: "i64 (centiYM ap * m) smod d = 0" "i64 (centiDays ap * m) smod d = 0"
    "i64 (centiHMS ap * m) smod d = 0"
    using assms(2) by (simp_all add: divides_exactly_def an)
  have g: "i64 (i64 (i64 (centiDays ap * m) sdiv d) * d) = i64 (centiDays ap * m)"
    using e(2) by (rule exact_division_restores)
  show ?thesis
    using assms(1) e g by (simp add: rationalScale64_def exact64_def an Let_def)
qed

lemma rationalScale64_inexact:
  assumes "d \<noteq> 0" and "\<not> divides_exactly m d p"
  shows "\<exists>r. rationalScale64 fl newOf finish m d p = Returned (r, None)"
proof -
  obtain ap ng where an: "absNeg p = (ap, ng)" by (cases "absNeg p")
  have e: "\<not> (i64 (centiYM ap * m) smod d = 0 \<and> i64 (centiDays ap * m) smod d = 0 \<and>
    i64 (centiHMS ap * m) smod d = 0)"
    using assms(2) by (simp add: divides_exactly_def an)
  show ?thesis
    unfolding rationalScale64_def an Let_def prod.case
    using assms(1) e by (simp only: if_False split: prod.splits) simp
qed

lemma rationalScale64_error_only_exact:
  assumes "rationalScale64 fl newOf finish m d p = Returned (r, Some e)"
  shows "r = Period0 \<and> d \<noteq> 0 \<and> divides_exactly m d p \<and> overflowing (exact64 fl m d p) \<noteq> []"
proof -
  have d: "d \<noteq> 0"
  proof
    assume "d = 0"
    then have "rationalScale64 fl newOf finish m d p = Panic"
      by (simp add: rationalScale64_def Let_def split: prod.splits)
    then show False using assms by simp
  qed
  have x: "divides_exactly m d p"
  proof (rule ccontr)
    assume "\<not> divides_exactly m d p"
    then obtain r' where "rationalScale64 fl newOf finish m d p = Returned (r', None)"
      using rationalScale64_inexact [OF d] by blast
    then show False using assms by simp
  qed
  have "toPeriod (exact64 fl m d p) = (r, Some e)"
    using assms rationalScale64_exact [OF d x, of fl newOf finish] by simp
  then have "r = Period0 \<and> overflowing (exact64 fl m d p) \<noteq> []"
    by (rule toPeriod_error_overflowing)
  then show ?thesis using d x by simp
qed

text \<open>
  C2, as amended. \<open>Add\<close> and \<open>Scale\<close> return a Period and no error value. On the general
  path of \<open>Add\<close>, whenever a field of the normalised 64-bit sum is above 32767 (or its
  fraction above 99), the overflow error of \<open>toPeriod\<close> is dropped and the zero Period
  is returned. In scaling, whenever the divisor is not zero, the three scaled totals
  divide exactly and a field of the normalised quotients is above 32767 (or the
  fraction above 99), \<open>RationalScale\<close> returns the zero Period with the overflow error
  naming those fields, \<open>ScaleWithOverflowCheck\<close> on a factor that converts to this
  multiplier and divisor returns the same error, and \<open>Scale\<close> returns the zero Period
  alone. \<open>RationalScale\<close> returns an error in no other case.
\<close>

theorem Add_and_Scale_drop_overflow_error:
  "(\<not> ((fpart a = fpart b \<or> fpart a = NoFraction \<or> fpart b = NoFraction) \<and> Sign a = Sign b) \<longrightarrow>
      overflowing (nonTrivialAdd64 fl a b) \<noteq> [] \<longrightarrow> Add fl a b = Period0) \<and>
   (d \<noteq> 0 \<longrightarrow> divides_exactly m d p \<longrightarrow> overflowing (exact64 fl m d p) \<noteq> [] \<longrightarrow>
      RationalScale fl newOf finish p m d =
        Returned (Period0, Some (OverflowError (Rendered (exact64 fl m d p))
                                   (overflowing (exact64 fl m d p)))) \<and>
      (toRat factor = Some (m, d) \<longrightarrow>
         ScaleWithOverflowCheck fl newOf finish toRat p factor =
           Returned (Period0, Some (Overflowed (OverflowError (Rendered (exact64 fl m d p))
                                      (overflowing (exact64 fl m d p))))) \<and>
         Scale fl newOf finish toRat p factor = Returned Period0)) \<and>
   (RationalScale fl newOf finish p m d = Returned (r, Some e) \<longrightarrow>
      r = Period0 \<and> d \<noteq> 0 \<and> divides_exactly m d p \<and> overflowing (exact64 fl m d p) \<noteq> [])"
proof (intro conjI impI)
  assume n: "\<not> ((fpart a = fpart b \<or> fpart a = NoFraction \<or> fpart b = NoFraction) \<and> Sign a = Sign b)"
    and o: "overflowing (nonTrivialAdd64 fl a b) \<noteq> []"
  from n have "Add fl a b = nonTrivialAdd fl a b" unfolding Add_def by (simp only: if_False)
  then show "Add fl a b = Period0"
    using o by (simp add: nonTrivialAdd_def toPeriod_overflow_zero)
next
  assume d: "d \<noteq> 0" and x: "divides_exactly m d p"
    and o: "overflowing (exact64 fl m d p) \<noteq> []"
  have s: "rationalScale64 fl newOf finish m d p =
      Returned (Period0, Some (OverflowError (Rendered (exact64 fl m d p))
                                   (overflowing (exact64 fl m d p))))"
    using rationalScale64_exact [OF d x, of fl newOf finish]
      toPeriod_overflow_error [OF o exact64_input]
    by simp
  show "RationalScale fl newOf finish p m d =
      Returned (Period0, Some (OverflowError (Rendered (exact64 fl m d p))
                                   (overflowing (exact64 fl m d p))))"
    using s by (simp add: RationalScale_def)
  assume t: "toRat factor = Some (m, d)"
  show c: "ScaleWithOverflowCheck fl newOf finish toRat p factor =
      Returned (Period0, Some (Overflowed (OverflowError (Rendered (exact64 fl m d p))
                                      (overflowing (exact64 fl m d p)))))"
    using s t by (simp add: ScaleWithOverflowCheck_def)
  show "Scale fl newOf finish toRat p factor = Returned Period0"
    using c by (simp add: Scale_def)
next
  assume s: "RationalScale fl newOf finish p m d = Returned (r, Some e)"
  then have s': "rationalScale64 fl newOf finish m d p = Returned (r, Some e)"
    by (simp add: RationalScale_def)
  note q = rationalScale64_error_only_exact [OF s']
  show "r = Period0" using q by simp
  show "d \<noteq> 0" using q by simp
  show "divides_exactly m d p" using q by simp
  show "overflowing (exact64 fl m d p) \<noteq> []" using q by simp
qed

text \<open>
  32767 years and 0.01 month plus 1 year and 0.01 day, and 20000 years scaled by 2.
\<close>

theorem Add_and_Scale_drop_overflow_error_witness:
  "\<not> ((fpart (PeriodOf 32767 0 0 0 0 0 1 Month) = fpart (PeriodOf 1 0 0 0 0 0 1 Day) \<or>
        fpart (PeriodOf 32767 0 0 0 0 0 1 Month) = NoFraction \<or>
        fpart (PeriodOf 1 0 0 0 0 0 1 Day) = NoFraction) \<and>
       Sign (PeriodOf 32767 0 0 0 0 0 1 Month) = Sign (PeriodOf 1 0 0 0 0 0 1 Day)) \<and>
   overflowing
     (nonTrivialAdd64 idle (PeriodOf 32767 0 0 0 0 0 1 Month) (PeriodOf 1 0 0 0 0 0 1 Day))
     \<noteq> [] \<and>
   Add idle (PeriodOf 32767 0 0 0 0 0 1 Month) (PeriodOf 1 0 0 0 0 0 1 Day) = Period0 \<and>
   (1::int) \<noteq> 0 \<and>
   divides_exactly 2 1 (PeriodOf 20000 0 0 0 0 0 0 NoFraction) \<and>
   exact64 idle 2 1 (PeriodOf 20000 0 0 0 0 0 0 NoFraction) =
     Period64Of 40000 0 0 0 0 0 0 NoFraction False [] \<and>
   overflowing (exact64 idle 2 1 (PeriodOf 20000 0 0 0 0 0 0 NoFraction)) = [''years''] \<and>
   whole_factor 2 = Some (2, 1) \<and>
   RationalScale idle newOf_unused finish_unused (PeriodOf 20000 0 0 0 0 0 0 NoFraction) 2 1 =
     Returned (Period0, Some (OverflowError
       (Rendered (Period64Of 40000 0 0 0 0 0 0 NoFraction False [])) [''years''])) \<and>
   ScaleWithOverflowCheck idle newOf_unused finish_unused whole_factor
     (PeriodOf 20000 0 0 0 0 0 0 NoFraction) 2 =
     Returned (Period0, Some (Overflowed (OverflowError
       (Rendered (Period64Of 40000 0 0 0 0 0 0 NoFraction False [])) [''years'']))) \<and>
   Scale idle newOf_unused finish_unused whole_factor
     (PeriodOf 20000 0 0 0 0 0 0 NoFraction) 2 = Returned Period0"
proof -
  have n: "\<not> ((fpart (PeriodOf 32767 0 0 0 0 0 1 Month) = fpart (PeriodOf 1 0 0 0 0 0 1 Day) \<or>
        fpart (PeriodOf 32767 0 0 0 0 0 1 Month) = NoFraction \<or>
        fpart (PeriodOf 1 0 0 0 0 0 1 Day) = NoFraction) \<and>
       Sign (PeriodOf 32767 0 0 0 0 0 1 Month) = Sign (PeriodOf 1 0 0 0 0 0 1 Day))"
    by simp
  have o: "overflowing
     (nonTrivialAdd64 idle (PeriodOf 32767 0 0 0 0 0 1 Month) (PeriodOf 1 0 0 0 0 0 1 Day))
     \<noteq> []"
    by code_simp
  have d: "(1::int) \<noteq> 0" by simp
  have x: "divides_exactly 2 1 (PeriodOf 20000 0 0 0 0 0 0 NoFraction)" by code_simp
  have q: "exact64 idle 2 1 (PeriodOf 20000 0 0 0 0 0 0 NoFraction) =
     Period64Of 40000 0 0 0 0 0 0 NoFraction False []"
    by code_simp
  have v: "overflowing (Period64Of 40000 0 0 0 0 0 0 NoFraction False []) = [''years'']"
    by code_simp
  have w: "whole_factor 2 = Some (2, 1)" by (simp add: whole_factor_def)
  note t = Add_and_Scale_drop_overflow_error
      [of "PeriodOf 32767 0 0 0 0 0 1 Month" "PeriodOf 1 0 0 0 0 0 1 Day" idle
          1 2 "PeriodOf 20000 0 0 0 0 0 0 NoFraction" newOf_unused finish_unused
          whole_factor 2]
  have a: "Add idle (PeriodOf 32767 0 0 0 0 0 1 Month) (PeriodOf 1 0 0 0 0 0 1 Day) = Period0"
    using t n o by blast
  have ov: "overflowing (exact64 idle 2 1 (PeriodOf 20000 0 0 0 0 0 0 NoFraction)) \<noteq> []"
    by (simp add: q v)
  have b: "RationalScale idle newOf_unused finish_unused
             (PeriodOf 20000 0 0 0 0 0 0 NoFraction) 2 1 =
     Returned (Period0, Some (OverflowError
       (Rendered (Period64Of 40000 0 0 0 0 0 0 NoFraction False [])) [''years'']))"
    using t d x ov by (simp add: q v)
  have c: "ScaleWithOverflowCheck idle newOf_unused finish_unused whole_factor
     (PeriodOf 20000 0 0 0 0 0 0 NoFraction) 2 =
     Returned (Period0, Some (Overflowed (OverflowError
       (Rendered (Period64Of 40000 0 0 0 0 0 0 NoFraction False [])) [''years''])))"
    using t d x ov w by (simp add: q v)
  have s: "Scale idle newOf_unused finish_unused whole_factor
     (PeriodOf 20000 0 0 0 0 0 0 NoFraction) 2 = Returned Period0"
    using t d x ov w by (simp add: q v)
  show ?thesis using n o a d x q v w b c s by simp
qed

text \<open>
  C2, as stated, fails: the normalised results have 32768 and 40000 years, and \<open>Add\<close>
  and \<open>Scale\<close> return the zero Period with no error, while \<open>ScaleWithOverflowCheck\<close>
  reports the overflow of the same scaling. On the fast path 20000 years added to
  itself wraps to -25536 years, again with no error.
\<close>

theorem Add_and_Scale_overflow_counterexample:
  "valid_Period (PeriodOf 32767 0 0 0 0 0 1 Month) \<and>
   valid_Period (PeriodOf 1 0 0 0 0 0 1 Day) \<and>
   nonTrivialAdd64 idle (PeriodOf 32767 0 0 0 0 0 1 Month) (PeriodOf 1 0 0 0 0 0 1 Day) =
     Period64Of 32768 0 0 0 0 0 1 Day False [] \<and>
   Add idle (PeriodOf 32767 0 0 0 0 0 1 Month) (PeriodOf 1 0 0 0 0 0 1 Day) = Period0 \<and>
   valid_Period (PeriodOf 20000 0 0 0 0 0 0 NoFraction) \<and>
   Add idle (PeriodOf 20000 0 0 0 0 0 0 NoFraction) (PeriodOf 20000 0 0 0 0 0 0 NoFraction) =
     PeriodOf (- 25536) 0 0 0 0 0 0 NoFraction \<and>
   ScaleWithOverflowCheck idle newOf_unused finish_unused whole_factor
     (PeriodOf 20000 0 0 0 0 0 0 NoFraction) 2 =
     Returned (Period0, Some (Overflowed (OverflowError
       (Rendered (Period64Of 40000 0 0 0 0 0 0 NoFraction False [])) [''years'']))) \<and>
   Scale idle newOf_unused finish_unused whole_factor
     (PeriodOf 20000 0 0 0 0 0 0 NoFraction) 2 = Returned Period0"
  by code_simp

section \<open>Fraction reduction\<close>

text \<open>
  C6. Each fraction-reduction pass (year fraction to months, day fraction to hours,
  hour fraction to minutes, minute fraction to seconds) either commits or changes
  nothing. It commits when the fraction is attached to the pass's own designator (and,
  for the day pass, the mode is not precise) and the converted hundredths have
  remainder zero modulo 100: then exactly the whole converted units are added to the
  target field, in 64-bit arithmetic, and the fraction and the designator are cleared.
  Otherwise the whole value, fraction, designator and all six fields, is returned as it
  was: a fraction that does not convert exactly is neither rounded nor partly moved.
\<close>

theorem reduce_passes_commit_exactly_or_keep:
  assumes "- 128 \<le> fraction64 p" and "fraction64 p \<le> 127"
  shows "reduceYearsFraction p =
           (if fpart64 p = Year \<and> (12 * fraction64 p) smod 100 = 0
            then p\<lparr>months64 := i64 (months64 p + (12 * fraction64 p) sdiv 100),
                   fraction64 := 0, fpart64 := NoFraction\<rparr>
            else p) \<and>
         reduceDaysFraction precise p =
           (if \<not> precise \<and> fpart64 p = Day \<and> (24 * fraction64 p) smod 100 = 0
            then p\<lparr>hours64 := i64 (hours64 p + (24 * fraction64 p) sdiv 100),
                   fraction64 := 0, fpart64 := NoFraction\<rparr>
            else p) \<and>
         reduceHoursFraction p =
           (if fpart64 p = Hour \<and> (60 * fraction64 p) smod 100 = 0
            then p\<lparr>minutes64 := i64 (minutes64 p + (60 * fraction64 p) sdiv 100),
                   fraction64 := 0, fpart64 := NoFraction\<rparr>
            else p) \<and>
         reduceMinutesFraction p =
           (if fpart64 p = Minute \<and> (60 * fraction64 p) smod 100 = 0
            then p\<lparr>seconds64 := i64 (seconds64 p + (60 * fraction64 p) sdiv 100),
                   fraction64 := 0, fpart64 := NoFraction\<rparr>
            else p)"
proof -
  have a: "i64 (12 * fraction64 p) = 12 * fraction64 p"
    using assms by (intro i64_id) simp_all
  have b: "i64 (24 * fraction64 p) = 24 * fraction64 p"
    using assms by (intro i64_id) simp_all
  have c: "i64 (60 * fraction64 p) = 60 * fraction64 p"
    using assms by (intro i64_id) simp_all
  show ?thesis
    by (simp add: reduceYearsFraction_def reduceDaysFraction_def reduceHoursFraction_def
        reduceMinutesFraction_def a b c Let_def)
qed

text \<open>
  At 1.75 years the year pass moves nine months; at 1.33 years it moves nothing.
\<close>

theorem reduce_passes_commit_exactly_or_keep_witness:
  "- 128 \<le> fraction64 (Period64Of 1 2 0 0 0 0 75 Year False []) \<and>
   fraction64 (Period64Of 1 2 0 0 0 0 75 Year False []) \<le> 127 \<and>
   reduceYearsFraction (Period64Of 1 2 0 0 0 0 75 Year False []) =
     Period64Of 1 11 0 0 0 0 0 NoFraction False [] \<and>
   reduceYearsFraction (Period64Of 1 2 0 0 0 0 33 Year False []) =
     Period64Of 1 2 0 0 0 0 33 Year False []"
proof -
  have l: "- 128 \<le> fraction64 (Period64Of 1 2 0 0 0 0 75 Year False [])" by simp
  have u: "fraction64 (Period64Of 1 2 0 0 0 0 75 Year False []) \<le> 127" by simp
  have l': "- 128 \<le> fraction64 (Period64Of 1 2 0 0 0 0 33 Year False [])" by simp
  have u': "fraction64 (Period64Of 1 2 0 0 0 0 33 Year False []) \<le> 127" by simp
  have s: "(900::int) smod 100 = 0" "(900::int) sdiv 100 = 9" "(396::int) smod 100 \<noteq> 0"
    by (simp_all add: signed_modulo_int_def signed_divide_int_def)
  have "reduceYearsFraction (Period64Of 1 2 0 0 0 0 75 Year False []) =
          Period64Of 1 11 0 0 0 0 0 NoFraction False []"
    using reduce_passes_commit_exactly_or_keep [OF l u] s by (simp add: i64_def)
  moreover have "reduceYearsFraction (Period64Of 1 2 0 0 0 0 33 Year False []) =
          Period64Of 1 2 0 0 0 0 33 Year False []"
    using reduce_passes_commit_exactly_or_keep [OF l' u'] s by simp
  ultimately show ?thesis by simp
qed

section \<open>Narrowing\<close>

text \<open>
  C4. For every period64, \<open>toPeriod\<close> either succeeds, and then no field is above
  32767 and the fraction is not above 99, or fails with an overflow error that names
  exactly the fields whose value is above the maximum of the public field (a years
  value above 32767 gives an error naming \<open>years\<close>) and carries the original input
  text when there is one (the rendering of the value otherwise); its message is that
  text, \<open>: integer overflow occurred in\<close> and the names joined by commas. On failure
  the Period returned is the zero value, not a truncated or wrapped one.
\<close>

theorem toPeriod_overflow_error_names_fields:
  "(case toPeriod p of
      (r, None) \<Rightarrow>
        years64 p \<le> 32767 \<and> months64 p \<le> 32767 \<and> days64 p \<le> 32767 \<and>
        hours64 p \<le> 32767 \<and> minutes64 p \<le> 32767 \<and> seconds64 p \<le> 32767 \<and>
        fraction64 p \<le> 99
    | (r, Some e) \<Rightarrow>
        r = Period0 \<and>
        (''years'' \<in> set (error_fields e)) = (years64 p > 32767) \<and>
        (''months'' \<in> set (error_fields e)) = (months64 p > 32767) \<and>
        (''days'' \<in> set (error_fields e)) = (days64 p > 32767) \<and>
        (''hours'' \<in> set (error_fields e)) = (hours64 p > 32767) \<and>
        (''minutes'' \<in> set (error_fields e)) = (minutes64 p > 32767) \<and>
        (''seconds'' \<in> set (error_fields e)) = (seconds64 p > 32767) \<and>
        (''fraction'' \<in> set (error_fields e)) = (fraction64 p > 99) \<and>
        error_label e = (if input p = [] then Rendered p else Given (input p)) \<and>
        Error render e =
          (if input p = [] then render p else input p) @
          '': integer overflow occurred in '' @ join '','' (error_fields e))"
proof (cases "overflowing p = []")
  case True
  then show ?thesis
    by (simp add: toPeriod_def Let_def) (simp add: overflowing_def MaxInt16_def split: if_splits)
next
  case False
  have t: "toPeriod p =
             (Period0, Some (OverflowError
                (if input p = [] then Rendered p else Given (input p)) (overflowing p)))"
    using False by (simp add: toPeriod_def Let_def)
  have m: "(''years'' \<in> set (overflowing p)) = (years64 p > 32767)"
    "(''months'' \<in> set (overflowing p)) = (months64 p > 32767)"
    "(''days'' \<in> set (overflowing p)) = (days64 p > 32767)"
    "(''hours'' \<in> set (overflowing p)) = (hours64 p > 32767)"
    "(''minutes'' \<in> set (overflowing p)) = (minutes64 p > 32767)"
    "(''seconds'' \<in> set (overflowing p)) = (seconds64 p > 32767)"
    "(''fraction'' \<in> set (overflowing p)) = (fraction64 p > 99)"
    by (simp_all add: overflowing_def MaxInt16_def)
  show ?thesis unfolding t by (simp add: m Error_def)
qed

text \<open>
  32768 years and 40000 seconds with the input text \<open>P32768Y\<close>: the error names the
  years and the seconds after the input text.
\<close>

theorem toPeriod_overflow_error_names_fields_witness:
  "toPeriod (Period64Of 32768 0 0 0 0 40000 0 NoFraction False ''P32768Y'') =
     (Period0, Some (OverflowError (Given ''P32768Y'') [''years'', ''seconds''])) \<and>
   Error input (OverflowError (Given ''P32768Y'') [''years'', ''seconds'']) =
     ''P32768Y: integer overflow occurred in years,seconds''"
proof -
  obtain r e where t: "toPeriod (Period64Of 32768 0 0 0 0 40000 0 NoFraction False ''P32768Y'')
                        = (r, e)"
    by (cases "toPeriod (Period64Of 32768 0 0 0 0 40000 0 NoFraction False ''P32768Y'')")
  have f: "overflowing (Period64Of 32768 0 0 0 0 40000 0 NoFraction False ''P32768Y'')
             = [''years'', ''seconds'']"
    by (simp add: overflowing_def MaxInt16_def)
  have e: "e = Some (OverflowError (Given ''P32768Y'') [''years'', ''seconds''])"
    using t f by (simp add: toPeriod_def)
  note n = toPeriod_overflow_error_names_fields
      [of "Period64Of 32768 0 0 0 0 40000 0 NoFraction False ''P32768Y''" input]
  have r: "r = Period0" using n t e by simp
  have m: "Error input (OverflowError (Given ''P32768Y'') [''years'', ''seconds'']) =
             ''P32768Y: integer overflow occurred in years,seconds''"
    using n t e by simp
  show ?thesis using t e r m by simp
qed

text \<open>
  C9. The range checks of \<open>toPeriod\<close> are one-sided: it reports an overflow exactly
  when a field is above +32767 or the fraction is above +99. A period64 with a negative
  field, however large its magnitude, or with a fraction below -99 passes the checks
  and is narrowed to a Period with no error; the narrowing keeps the low 16 bits of
  each field.
\<close>

theorem toPeriod_checks_upper_bounds_only:
  "(snd (toPeriod p) = None) =
     (years64 p \<le> 32767 \<and> months64 p \<le> 32767 \<and> days64 p \<le> 32767 \<and>
      hours64 p \<le> 32767 \<and> minutes64 p \<le> 32767 \<and> seconds64 p \<le> 32767 \<and>
      fraction64 p \<le> 99) \<and>
   (snd (toPeriod p) = None \<longrightarrow>
      fst (toPeriod p) =
        (if neg p
         then \<lparr>years = i16 (i64 (- years64 p)), months = i16 (i64 (- months64 p)),
               days = i16 (i64 (- days64 p)), hours = i16 (i64 (- hours64 p)),
               minutes = i16 (i64 (- minutes64 p)), seconds = i16 (i64 (- seconds64 p)),
               fraction = i8 (- fraction64 p), fpart = fpart64 p\<rparr>
         else \<lparr>years = i16 (years64 p), months = i16 (months64 p), days = i16 (days64 p),
               hours = i16 (hours64 p), minutes = i16 (minutes64 p),
               seconds = i16 (seconds64 p),
               fraction = fraction64 p, fpart = fpart64 p\<rparr>))"
  by (simp add: toPeriod_def overflowing_def MaxInt16_def Let_def)

text \<open>
  -40000 years and a fraction of -100 pass the checks; the years come out as 25536.
\<close>

theorem toPeriod_checks_upper_bounds_only_witness:
  "snd (toPeriod (Period64Of (- 40000) 0 0 0 0 0 (- 100) Day False [])) = None \<and>
   fst (toPeriod (Period64Of (- 40000) 0 0 0 0 0 (- 100) Day False [])) =
     PeriodOf 25536 0 0 0 0 0 (- 100) Day"
proof -
  have n: "snd (toPeriod (Period64Of (- 40000) 0 0 0 0 0 (- 100) Day False [])) = None"
    using toPeriod_checks_upper_bounds_only
            [of "Period64Of (- 40000) 0 0 0 0 0 (- 100) Day False []"]
    by simp
  have "fst (toPeriod (Period64Of (- 40000) 0 0 0 0 0 (- 100) Day False [])) =
          PeriodOf (i16 (- 40000)) (i16 0) (i16 0) (i16 0) (i16 0) (i16 0) (- 100) Day"
    using toPeriod_checks_upper_bounds_only
            [of "Period64Of (- 40000) 0 0 0 0 0 (- 100) Day False []"] n
    by simp
  then show ?thesis using n by (simp add: i16_def)
qed

section \<open>Commutativity of Add\<close>

lemma simpleAdd_commute:
  assumes "fpart a = NoFraction \<longrightarrow> fraction a = 0"
    and "fpart b = NoFraction \<longrightarrow> fraction b = 0"
    and "fpart a = fpart b \<or> fpart a = NoFraction \<or> fpart b = NoFraction"
    and "Sign a = Sign b"
  shows "simpleAdd a b = simpleAdd b a"
proof (cases "fpart a = NoFraction")
  case True
  then show ?thesis using assms(1,2)
    by (cases "fpart b = NoFraction") (simp_all add: simpleAdd_def Let_def add.commute)
next
  case False
  show ?thesis
  proof (cases "fpart b = NoFraction")
    case True
    with False show ?thesis by (simp add: simpleAdd_def Let_def add.commute)
  next
    case nb: False
    with False assms(3) have eq: "fpart a = fpart b" by simp
    show ?thesis
      using False nb eq assms(4)
      by (simp add: simpleAdd_def Let_def carry_fields i16_add_left i16_add_right ac_simps)
  qed
qed

lemma nonTrivialAdd_commute: "nonTrivialAdd fl a b = nonTrivialAdd fl b a"
  by (simp add: nonTrivialAdd_def nonTrivialAdd64_def add.commute)

text \<open>
  C3. For every pair of valid Periods \<open>a\<close> and \<open>b\<close>, \<open>a.Add(b)\<close> and \<open>b.Add(a)\<close> are the
  same Period, equal in every whole field, the fraction and the designator, whether the
  fast path or the general centi-unit path is taken.
\<close>

theorem Add_commutative:
  assumes "valid_Period a" and "valid_Period b"
  shows "Add fl a b = Add fl b a"
proof (cases "(fpart a = fpart b \<or> fpart a = NoFraction \<or> fpart b = NoFraction) \<and> Sign a = Sign b")
  case True
  have fa: "fpart a = NoFraction \<longrightarrow> fraction a = 0" using assms(1) by (simp add: valid_Period_def)
  have fb: "fpart b = NoFraction \<longrightarrow> fraction b = 0" using assms(2) by (simp add: valid_Period_def)
  have "simpleAdd a b = simpleAdd b a" using fa fb True by (intro simpleAdd_commute) simp_all
  moreover have "Add fl a b = simpleAdd a b" using True by (simp add: Add_def)
  moreover have "(fpart b = fpart a \<or> fpart b = NoFraction \<or> fpart a = NoFraction) \<and> Sign b = Sign a"
    using True by auto
  then have "Add fl b a = simpleAdd b a" by (simp add: Add_def)
  ultimately show ?thesis by simp
next
  case False
  then have "Add fl a b = nonTrivialAdd fl a b" unfolding Add_def by (simp only: if_False)
  moreover have "\<not> ((fpart b = fpart a \<or> fpart b = NoFraction \<or> fpart a = NoFraction) \<and> Sign b = Sign a)"
    using False by auto
  then have "Add fl b a = nonTrivialAdd fl b a" unfolding Add_def by (simp only: if_False)
  ultimately show ?thesis by (simp add: nonTrivialAdd_commute)
qed

text \<open>1h45m and -30m take the general path in both orders and give 1h15m.\<close>

theorem Add_commutative_witness:
  "valid_Period (PeriodOf 0 0 0 1 45 0 0 NoFraction) \<and>
   valid_Period (PeriodOf 0 0 0 0 (- 30) 0 0 NoFraction) \<and>
   Add idle
     (PeriodOf 0 0 0 1 45 0 0 NoFraction)
     (PeriodOf 0 0 0 0 (- 30) 0 0 NoFraction) =
   Add idle
     (PeriodOf 0 0 0 0 (- 30) 0 0 NoFraction)
     (PeriodOf 0 0 0 1 45 0 0 NoFraction) \<and>
   Add idle
     (PeriodOf 0 0 0 0 (- 30) 0 0 NoFraction)
     (PeriodOf 0 0 0 1 45 0 0 NoFraction) =
   (PeriodOf 0 0 0 1 15 0 0 NoFraction)"
proof -
  have a: "valid_Period (PeriodOf 0 0 0 1 45 0 0 NoFraction)"
    by code_simp
  have b: "valid_Period (PeriodOf 0 0 0 0 (- 30) 0 0 NoFraction)"
    by code_simp
  have v: "Add idle
     (PeriodOf 0 0 0 0 (- 30) 0 0 NoFraction)
     (PeriodOf 0 0 0 1 45 0 0 NoFraction) =
   (PeriodOf 0 0 0 1 15 0 0 NoFraction)"
    by code_simp
  show ?thesis
    using Add_commutative [OF a b, of idle] a b v by simp
qed

section \<open>AddTo\<close>

text \<open>
  C5. For every Period whose fraction is attached to none of Year, Month and Day,
  \<open>AddTo\<close> adds the whole years, months and days with the calendar addition of the
  timestamp, then adds the hour-minute-second duration as an elapsed-time offset, and
  returns the flag \<open>precise = true\<close>.
\<close>

theorem AddTo_whole_date_fields:
  assumes "fpart period \<noteq> Year" and "fpart period \<noteq> Month" and "fpart period \<noteq> Day"
  shows "AddTo addDate addDuration hmsDuration Duration period t =
           (addDuration (addDate t (years period) (months period) (days period))
              (hmsDuration period), True)"
  using assms by (simp add: AddTo_def)

text \<open>
  One day and 1h30m on a timeline of seconds, with a toy calendar for the date part.
\<close>

theorem AddTo_whole_date_fields_witness:
  "fpart (PeriodOf 0 0 1 1 30 0 0 NoFraction) \<noteq> Year \<and>
   fpart (PeriodOf 0 0 1 1 30 0 0 NoFraction) \<noteq> Month \<and>
   fpart (PeriodOf 0 0 1 1 30 0 0 NoFraction) \<noteq> Day \<and>
   AddTo (\<lambda>t y m d. t + 86400 * (365 * y + 30 * m + d)) (\<lambda>t d. t + d)
         (\<lambda>p. 3600 * hours p + 60 * minutes p + seconds p) (\<lambda>p. (0, False))
         (PeriodOf 0 0 1 1 30 0 0 NoFraction) (1000 :: int) = (92800, True)"
proof -
  have y: "fpart (PeriodOf 0 0 1 1 30 0 0 NoFraction) \<noteq> Year" by simp
  have m: "fpart (PeriodOf 0 0 1 1 30 0 0 NoFraction) \<noteq> Month" by simp
  have d: "fpart (PeriodOf 0 0 1 1 30 0 0 NoFraction) \<noteq> Day" by simp
  show ?thesis
    using AddTo_whole_date_fields [OF y m d,
        of "\<lambda>t y m d. t + 86400 * (365 * y + 30 * m + d)" "\<lambda>t d. t + d"
           "\<lambda>p. 3600 * hours p + 60 * minutes p + seconds p" "\<lambda>p. (0, False)" "1000 :: int"]
    by simp
qed

section \<open>Scaling\<close>

text \<open>
  C8. For every Period and every multiplier, \<open>RationalScale\<close> with the divisor 0 panics:
  it returns neither an error value nor a Period. For every divisor other than 0 it
  does not panic.
\<close>

theorem RationalScale_panics_iff_zero_divisor:
  "(RationalScale fl newOf finish period multiplier divisor = Panic) = (divisor = 0)"
  by (simp add: RationalScale_def rationalScale64_def Let_def split: prod.splits)

text \<open>One day scaled by 1/0 panics, scaled by 1/2 it does not.\<close>

theorem RationalScale_panics_iff_zero_divisor_witness:
  "RationalScale idle newOf_unused finish_unused
     (PeriodOf 0 0 1 0 0 0 0 NoFraction) 1 0 = Panic \<and>
   RationalScale idle newOf_unused finish_unused
     (PeriodOf 0 0 1 0 0 0 0 NoFraction) 1 2 \<noteq> Panic"
  using RationalScale_panics_iff_zero_divisor
          [of idle newOf_unused finish_unused "PeriodOf 0 0 1 0 0 0 0 NoFraction" 1 0]
        RationalScale_panics_iff_zero_divisor
          [of idle newOf_unused finish_unused "PeriodOf 0 0 1 0 0 0 0 NoFraction" 1 2]
  by simp

text \<open>
  C10. In the exact path of \<open>rationalScale64\<close>, entered only when the three scaled
  totals \<open>mcym\<close>, \<open>mcd\<close> and \<open>mchms\<close> are divisible by the divisor \<open>d\<close>, the guard
  \<open>d > m && scd*d != mcd\<close> with \<open>scd = mcd/d\<close> is false, so the branch that moves the
  day total into the hour-minute-second group is never taken: the exact path passes
  \<open>mcym/d\<close>, \<open>mcd/d\<close> and \<open>mchms/d\<close> to \<open>p64Of\<close> as they are.
\<close>

theorem rationalScale64_exact_passes_quotients:
  assumes "d \<noteq> 0"
    and "i64 (centiYM (fst (absNeg period)) * m) smod d = 0"
    and "i64 (centiDays (fst (absNeg period)) * m) smod d = 0"
    and "i64 (centiHMS (fst (absNeg period)) * m) smod d = 0"
  shows "\<not> (d > m \<and>
            i64 (i64 (i64 (centiDays (fst (absNeg period)) * m) sdiv d) * d)
              \<noteq> i64 (centiDays (fst (absNeg period)) * m)) \<and>
         rationalScale64 fl newOf finish m d period =
           Returned (toPeriod (p64Of fl
             (i64 (i64 (centiYM (fst (absNeg period)) * m) sdiv d))
             (i64 (i64 (centiDays (fst (absNeg period)) * m) sdiv d))
             (i64 (i64 (centiHMS (fst (absNeg period)) * m) sdiv d))
             (snd (absNeg period))))"
proof -
  obtain ap ng where an: "absNeg period = (ap, ng)" by (cases "absNeg period")
  have e: "i64 (centiYM ap * m) smod d = 0" "i64 (centiDays ap * m) smod d = 0"
    "i64 (centiHMS ap * m) smod d = 0"
    using assms(2,3,4) by (simp_all add: an)
  have g: "i64 (i64 (i64 (centiDays ap * m) sdiv d) * d) = i64 (centiDays ap * m)"
    using e(2) by (rule exact_division_restores)
  show ?thesis
    using assms(1) e g by (simp add: rationalScale64_def an Let_def)
qed

text \<open>Three days scaled by 1/3: the divisor exceeds the multiplier, and one day results.\<close>

theorem rationalScale64_exact_passes_quotients_witness:
  "(3::int) \<noteq> 0 \<and>
   i64 (centiYM (fst (absNeg (PeriodOf 0 0 3 0 0 0 0 NoFraction))) * 1) smod 3 = 0 \<and>
   i64 (centiDays (fst (absNeg (PeriodOf 0 0 3 0 0 0 0 NoFraction))) * 1) smod 3 = 0 \<and>
   i64 (centiHMS (fst (absNeg (PeriodOf 0 0 3 0 0 0 0 NoFraction))) * 1) smod 3 = 0 \<and>
   rationalScale64 idle newOf_unused finish_unused 1 3
     (PeriodOf 0 0 3 0 0 0 0 NoFraction) =
   Returned (PeriodOf 0 0 1 0 0 0 0 NoFraction, None)"
proof -
  have d: "(3::int) \<noteq> 0" by simp
  have a: "i64 (centiYM (fst (absNeg (PeriodOf 0 0 3 0 0 0 0 NoFraction))) * 1) smod 3 = 0"
    by code_simp
  have b: "i64 (centiDays (fst (absNeg (PeriodOf 0 0 3 0 0 0 0 NoFraction))) * 1) smod 3 = 0"
    by code_simp
  have c: "i64 (centiHMS (fst (absNeg (PeriodOf 0 0 3 0 0 0 0 NoFraction))) * 1) smod 3 = 0"
    by code_simp
  have v: "toPeriod (p64Of idle
             (i64 (i64 (centiYM (fst (absNeg (PeriodOf 0 0 3 0 0 0 0 NoFraction))) * 1) sdiv 3))
             (i64 (i64 (centiDays (fst (absNeg (PeriodOf 0 0 3 0 0 0 0 NoFraction))) * 1) sdiv 3))
             (i64 (i64 (centiHMS (fst (absNeg (PeriodOf 0 0 3 0 0 0 0 NoFraction))) * 1) sdiv 3))
             (snd (absNeg (PeriodOf 0 0 3 0 0 0 0 NoFraction))))
           = (PeriodOf 0 0 1 0 0 0 0 NoFraction, None)"
    by code_simp
  show ?thesis
    using rationalScale64_exact_passes_quotients [OF d a b c, of idle newOf_unused finish_unused]
      a b c v
    by simp
qed

end
